theory Spec2Isabelle
  imports Complex_Main "HOL-Library.Multiset"
begin

section \<open>Data model (server.ts, lines 18-70)\<close>

text \<open>
  The server keeps one registry of lobbies, keyed by lobby code. Every interface of the
  source is a record here. Field names follow the source, except where a name is taken in
  Isabelle or shared by several interfaces: \<open>id\<close> is \<open>pid\<close>, \<open>cid\<close>, \<open>tid\<close> and
  \<open>lid\<close> for a player, a clue, a task and a lobby; the coordinates are \<open>px\<close>, \<open>py\<close> and
  \<open>tx\<close>, \<open>ty\<close>; a clue's \<open>text\<close> is \<open>clue_text\<close> and a task's \<open>type\<close> is \<open>task_type\<close>.
  A nullable field is an \<open>option\<close>. JavaScript numbers that hold coordinates are reals,
  counters and time stamps are naturals.
\<close>

datatype role = Killer | Witness | Investigator | Forensics

datatype task_kind = Word_fuse | Wordle | Backwards_feud | Taxi_jam

datatype lobby_status = Lobby | Playing | Discussion | Voting | Witness_guessing | Game_over

datatype winner_side = Killer_wins | Investigators_win

record player_attributes =
  handedness :: string
  hairColor :: string
  shoeType :: string
  tshirtDesign :: string
  occupation :: string
  height :: string
  accessory :: string

record player =
  pid :: string
  name :: string
  role :: "role option"
  attributes :: player_attributes
  isHost :: bool
  votedFor :: "string option"
  px :: real
  py :: real
  color :: string
  hasStolenClue :: bool

record clue =
  cid :: string
  clue_text :: string
  isTampered :: bool
  foundBy :: string

record game_task =
  tid :: string
  tx :: real
  ty :: real
  task_type :: task_kind
  completed :: bool
  lockedFor :: "string list"

record lobby =
  lid :: string
  status :: lobby_status
  players :: "player list"
  clues :: "clue list"
  tasks :: "game_task list"
  startTime :: "nat option"
  endTime :: "nat option"
  winner :: "winner_side option"

text \<open>The registry \<open>lobbies: Record<string, Lobby>\<close>.\<close>

type_synonym store = "string \<Rightarrow> lobby option"

text \<open>What a handler passes to the callback of its caller.\<close>

datatype response =
    Error string
  | Joined string string
  | Message string
  | No_response

section \<open>Tables (server.ts, lines 72-125)\<close>

definition HANDEDNESS :: "string list" where
  "HANDEDNESS = [''Left'', ''Right'']"

definition HAIR_COLORS :: "string list" where
  "HAIR_COLORS = [''Black'', ''Brown'', ''Blonde'', ''Red'', ''Gray'']"

definition SHOE_TYPES :: "string list" where
  "SHOE_TYPES = [''Boots'', ''Running Shoes'', ''Flip Flops'', ''Loafers'', ''Sneakers'',
     ''High Heels'']"

definition TSHIRT_DESIGNS :: "string list" where
  "TSHIRT_DESIGNS = [''Plain'', ''Striped'', ''Polka Dot'', ''Graphic'', ''Tie-Dye'', ''Plaid'',
     ''Camo'', ''Floral'', ''Abstract'', ''Geometric'']"

definition OCCUPATIONS :: "string list" where
  "OCCUPATIONS = [''Teacher'', ''Doctor'', ''Engineer'', ''Artist'', ''Chef'', ''Police'',
     ''Firefighter'', ''Musician'', ''Writer'', ''Actor'', ''Scientist'', ''Athlete'', ''Pilot'',
     ''Lawyer'', ''Farmer'']"

definition ACCESSORIES :: "string list" where
  "ACCESSORIES = [''Glasses'', ''Hat'', ''Watch'', ''Necklace'', ''Earrings'', ''None'']"

definition PLAYER_COLORS :: "string list" where
  "PLAYER_COLORS = [''#ef4444'', ''#3b82f6'', ''#10b981'', ''#f59e0b'', ''#8b5cf6'', ''#ec4899'',
     ''#14b8a6'', ''#f97316'', ''#64748b'', ''#84cc16'']"

definition CLUE_MAP :: "(string \<times> string list) list" where
  "CLUE_MAP = [
    (''Left'', [''Southpaw'', ''Sinister'', ''Scissors'']),
    (''Right'', [''Standard'', ''Dexterous'', ''Common'']),
    (''Black'', [''Midnight'', ''Raven'', ''Darkness'']),
    (''Brown'', [''Earth'', ''Chestnut'', ''Chocolate'']),
    (''Blonde'', [''Golden'', ''Sunlight'', ''Straw'']),
    (''Red'', [''Fire'', ''Crimson'', ''Ginger'']),
    (''Gray'', [''Silver'', ''Wisdom'', ''Ash'']),
    (''Boots'', [''Winter'', ''Heavy'', ''Mud'']),
    (''Running Shoes'', [''Athletic'', ''Laces'', ''Track'']),
    (''Flip Flops'', [''Summer'', ''Beach'', ''Toes'']),
    (''Loafers'', [''Casual'', ''Slip-on'', ''Leather'']),
    (''Sneakers'', [''Street'', ''Comfort'', ''Rubber'']),
    (''High Heels'', [''Formal'', ''Tall'', ''Click-clack'']),
    (''Plain'', [''Simple'', ''Basic'', ''Unadorned'']),
    (''Striped'', [''Lines'', ''Zebra'', ''Parallel'']),
    (''Polka Dot'', [''Spots'', ''Circles'', ''Retro'']),
    (''Graphic'', [''Picture'', ''Logo'', ''Print'']),
    (''Tie-Dye'', [''Colorful'', ''Hippie'', ''Swirl'']),
    (''Plaid'', [''Lumberjack'', ''Squares'', ''Flannel'']),
    (''Camo'', [''Hidden'', ''Military'', ''Forest'']),
    (''Floral'', [''Nature'', ''Garden'', ''Blossom'']),
    (''Abstract'', [''Artistic'', ''Confusing'', ''Shapes'']),
    (''Geometric'', [''Math'', ''Angles'', ''Sharp'']),
    (''Teacher'', [''Chalk'', ''Grades'', ''School'']),
    (''Doctor'', [''Stethoscope'', ''Medicine'', ''Hospital'']),
    (''Engineer'', [''Math'', ''Build'', ''Design'']),
    (''Artist'', [''Paint'', ''Canvas'', ''Creative'']),
    (''Chef'', [''Kitchen'', ''Food'', ''Knife'']),
    (''Police'', [''Badge'', ''Law'', ''Siren'']),
    (''Firefighter'', [''Hose'', ''Rescue'', ''Flames'']),
    (''Musician'', [''Notes'', ''Instrument'', ''Stage'']),
    (''Writer'', [''Pen'', ''Paper'', ''Words'']),
    (''Actor'', [''Stage'', ''Drama'', ''Camera'']),
    (''Scientist'', [''Lab'', ''Microscope'', ''Research'']),
    (''Athlete'', [''Sweat'', ''Sports'', ''Medal'']),
    (''Pilot'', [''Sky'', ''Airplane'', ''Clouds'']),
    (''Lawyer'', [''Court'', ''Suit'', ''Judge'']),
    (''Farmer'', [''Tractor'', ''Crops'', ''Dirt'']),
    (''Glasses'', [''Vision'', ''Lenses'', ''Frames'']),
    (''Hat'', [''Headwear'', ''Shade'', ''Cap'']),
    (''Watch'', [''Time'', ''Wrist'', ''Tick'']),
    (''Necklace'', [''Jewelry'', ''Chain'', ''Pendant'']),
    (''Earrings'', [''Piercing'', ''Lobes'', ''Studs'']),
    (''None'', [''Bare'', ''Minimalist'', ''Empty''])]"

section \<open>JavaScript helpers\<close>

text \<open>
  \<open>Math.random()\<close> is an input of the model: a handler receives the draws it will make
  as a sequence \<open>rnd\<close> of naturals, \<open>rnd 0\<close> being its first call. The expression
  \<open>Math.floor(Math.random() * k)\<close> is \<open>rand_index k r\<close>: every index below \<open>k\<close> can
  come out, and it is 0 when \<open>k\<close> is 0. \<open>rand_unit r\<close> is the draw itself, in [0, 1).
  \<open>uuidv4()\<close> and \<open>Date.now()\<close> are sequences \<open>uuid\<close> and \<open>now\<close> in the same way.
\<close>

definition rand_index :: "nat \<Rightarrow> nat \<Rightarrow> nat" where
  "rand_index k r = (if k = 0 then 0 else r mod k)"

definition rand_unit :: "nat \<Rightarrow> real" where
  "rand_unit r = real (r mod 2 ^ 53) / 2 ^ 53"

definition shift :: "nat \<Rightarrow> (nat \<Rightarrow> 'a) \<Rightarrow> (nat \<Rightarrow> 'a)" where
  "shift k f = (\<lambda>i. f (i + k))"

text \<open>\<open>xs[i]\<close>, which is \<open>undefined\<close> out of range.\<close>

definition nth_opt :: "'a list \<Rightarrow> nat \<Rightarrow> 'a option" where
  "nth_opt xs i = (if i < length xs then Some (xs ! i) else None)"

text \<open>\<open>Array.prototype.findIndex\<close>; \<open>None\<close> is the source's -1.\<close>

fun findIndex :: "('a \<Rightarrow> bool) \<Rightarrow> 'a list \<Rightarrow> nat option" where
  "findIndex P [] = None"
| "findIndex P (x # xs) =
     (if P x then Some 0 else (case findIndex P xs of None \<Rightarrow> None | Some i \<Rightarrow> Some (Suc i)))"

text \<open>\<open>xs.splice(i, 1)\<close>.\<close>

definition splice1 :: "nat \<Rightarrow> 'a list \<Rightarrow> 'a list" where
  "splice1 i xs = take i xs @ drop (Suc i) xs"

text \<open>
  A field assignment through the object that \<open>find\<close> returned changes the first element
  that satisfies the predicate, and no other.
\<close>

fun update_first :: "('a \<Rightarrow> bool) \<Rightarrow> ('a \<Rightarrow> 'a) \<Rightarrow> 'a list \<Rightarrow> 'a list" where
  "update_first P f [] = []"
| "update_first P f (x # xs) = (if P x then f x # xs else x # update_first P f xs)"

text \<open>
  A field assignment through element \<open>k\<close> of \<open>xs.filter(P)\<close> changes the \<open>k\<close>-th element
  of \<open>xs\<close> that satisfies \<open>P\<close> (counting from 0).
\<close>

fun update_kth_match :: "('a \<Rightarrow> bool) \<Rightarrow> nat \<Rightarrow> ('a \<Rightarrow> 'a) \<Rightarrow> 'a list \<Rightarrow> 'a list" where
  "update_kth_match P k f [] = []"
| "update_kth_match P k f (x # xs) =
     (if P x then (case k of 0 \<Rightarrow> f x # xs | Suc k' \<Rightarrow> x # update_kth_match P k' f xs)
      else x # update_kth_match P k f xs)"

text \<open>Decimal digits and the decimal form of a number, as a template literal prints it.\<close>

definition digit_char :: "nat \<Rightarrow> char" where
  "digit_char d = char_of (48 + d)"

definition is_digit :: "char \<Rightarrow> bool" where
  "is_digit c = (48 \<le> (of_char c :: nat) \<and> (of_char c :: nat) \<le> 57)"

definition digit_value :: "char \<Rightarrow> nat" where
  "digit_value c = of_char c - 48"

fun dec :: "nat \<Rightarrow> string" where
  "dec n = (if n < 10 then [digit_char n] else dec (n div 10) @ [digit_char (n mod 10)])"

declare dec.simps [simp del]

definition dec_value :: "string \<Rightarrow> nat" where
  "dec_value s = foldl (\<lambda>a c. 10 * a + digit_value c) 0 s"

text \<open>
  \<open>parseInt(s)\<close> with no radix: leading white space, a sign, then hexadecimal digits after
  \<open>0x\<close> or decimal digits otherwise; \<open>None\<close> is \<open>NaN\<close>.
\<close>

definition is_space :: "char \<Rightarrow> bool" where
  "is_space c = ((of_char c :: nat) \<in> {9, 10, 11, 12, 13, 32})"

definition hex_value :: "char \<Rightarrow> nat option" where
  "hex_value c =
     (let n = (of_char c :: nat) in
      if 48 \<le> n \<and> n \<le> 57 then Some (n - 48)
      else if 65 \<le> n \<and> n \<le> 70 then Some (n - 55)
      else if 97 \<le> n \<and> n \<le> 102 then Some (n - 87)
      else None)"

definition parse_digits :: "nat \<Rightarrow> (char \<Rightarrow> nat option) \<Rightarrow> string \<Rightarrow> nat option" where
  "parse_digits radix val s =
     (let ds = takeWhile (\<lambda>c. val c \<noteq> None) s in
      if ds = [] then None
      else Some (foldl (\<lambda>a c. radix * a + the (val c)) 0 ds))"

definition parseInt :: "string \<Rightarrow> int option" where
  "parseInt s =
     (let t = dropWhile is_space s;
          neg = (t \<noteq> [] \<and> hd t = CHR ''-'');
          u = (if t \<noteq> [] \<and> (hd t = CHR ''-'' \<or> hd t = CHR ''+'') then tl t else t);
          hex = (length u \<ge> 2 \<and> u ! 0 = CHR ''0'' \<and> (u ! 1 = CHR ''x'' \<or> u ! 1 = CHR ''X''));
          m = (if hex then parse_digits 16 hex_value (drop 2 u)
               else parse_digits 10 (\<lambda>c. if is_digit c then Some (digit_value c) else None) u)
      in case m of None \<Rightarrow> None | Some v \<Rightarrow> Some (if neg then - int v else int v))"

section \<open>Pure functions (server.ts, lines 127-208)\<close>

definition getHeightClue :: "string \<Rightarrow> string" where
  "getHeightClue heightStr =
     (case parseInt (takeWhile (\<lambda>c. c \<noteq> CHR 0x27) heightStr) of
        None \<Rightarrow> ''Unknown''
      | Some feet \<Rightarrow>
          if feet < 5 then ''Short''
          else if feet = 5 then ''Average''
          else if feet > 5 then ''Tall''
          else ''Unknown'')"

definition generateAttributes :: "(nat \<Rightarrow> nat) \<Rightarrow> player_attributes" where
  "generateAttributes rnd =
     (let heightInches = rand_index 37 (rnd 0) + 48;
          feet = heightInches div 12;
          inches = heightInches mod 12
      in \<lparr> handedness = HANDEDNESS ! rand_index (length HANDEDNESS) (rnd 1),
           hairColor = HAIR_COLORS ! rand_index (length HAIR_COLORS) (rnd 2),
           shoeType = SHOE_TYPES ! rand_index (length SHOE_TYPES) (rnd 3),
           tshirtDesign = TSHIRT_DESIGNS ! rand_index (length TSHIRT_DESIGNS) (rnd 4),
           occupation = OCCUPATIONS ! rand_index (length OCCUPATIONS) (rnd 5),
           height = dec feet @ [CHR 0x27] @ dec inches @ [CHR 0x22],
           accessory = ACCESSORIES ! rand_index (length ACCESSORIES) (rnd 6) \<rparr>)"

text \<open>
  \<open>assignRoles\<close>: the role list, padded by the \<open>while\<close> loop, shuffled by the \<open>for\<close> loop
  (which runs \<open>i\<close> from the last index down to 1 and makes one draw each time), then
  handed out by position. The role list is never shorter than the player list, so
  \<open>roles[i]\<close> is defined for every player.
\<close>

function pad_roles :: "nat \<Rightarrow> role list \<Rightarrow> role list" where
  "pad_roles n roles =
     (if length roles < n then pad_roles n (roles @ [Investigator]) else roles)"
  by pat_completeness auto
termination
  by (relation "measure (\<lambda>(n, roles). n - length roles)") auto

declare pad_roles.simps [simp del]

definition swap :: "nat \<Rightarrow> nat \<Rightarrow> 'a list \<Rightarrow> 'a list" where
  "swap i j xs = (xs[i := xs ! j])[j := xs ! i]"

fun shuffle_loop :: "nat \<Rightarrow> (nat \<Rightarrow> nat) \<Rightarrow> 'a list \<Rightarrow> 'a list" where
  "shuffle_loop 0 rnd xs = xs"
| "shuffle_loop (Suc i) rnd xs =
     (let j = rand_index (Suc i + 1) (rnd 0)
      in shuffle_loop i (shift 1 rnd) (swap (Suc i) j xs))"

definition role_pool :: "nat \<Rightarrow> role list" where
  "role_pool n =
     pad_roles n ([Killer, Witness, Investigator] @ (if n \<ge> 4 then [Forensics] else []))"

definition assignRoles :: "(nat \<Rightarrow> nat) \<Rightarrow> player list \<Rightarrow> player list" where
  "assignRoles rnd ps =
     (let roles = role_pool (length ps);
          shuffled = shuffle_loop (length roles - 1) rnd roles
      in map (\<lambda>(p, r). p\<lparr>role := Some r\<rparr>) (zip ps shuffled))"

definition TASK_TYPES :: "task_kind list" where
  "TASK_TYPES = [Word_fuse, Wordle, Backwards_feud, Taxi_jam]"

definition generateTasks :: "(nat \<Rightarrow> nat) \<Rightarrow> (nat \<Rightarrow> string) \<Rightarrow> game_task list" where
  "generateTasks rnd uuid =
     map (\<lambda>i. \<lparr> tid = uuid i,
                tx = real (rand_index 1600 (rnd (3 * i)) + 200),
                ty = real (rand_index 1600 (rnd (3 * i + 1)) + 200),
                task_type = TASK_TYPES ! rand_index (length TASK_TYPES) (rnd (3 * i + 2)),
                completed = False,
                lockedFor = [] \<rparr>) [0..<15]"

text \<open>
  \<open>generateClue\<close>. \<open>clue_target\<close> is its first half, the choice of the player the clue is
  about, with the draws that remain; \<open>attribute_clue\<close> is the second half, the text made
  from that player's attributes. With no player at all \<open>lobby.players[0]\<close> is undefined
  and reading its attributes throws: the result \<open>None\<close>.
  Attribute values are only ever made by \<open>generateAttributes\<close>, from the tables above.
\<close>

definition ATTRIBUTE_KEYS :: "string list" where
  "ATTRIBUTE_KEYS = [''handedness'', ''hairColor'', ''shoeType'', ''tshirtDesign'',
     ''occupation'', ''height'', ''accessory'']"

definition attribute_value :: "player_attributes \<Rightarrow> string \<Rightarrow> string" where
  "attribute_value a k =
     (if k = ''handedness'' then handedness a
      else if k = ''hairColor'' then hairColor a
      else if k = ''shoeType'' then shoeType a
      else if k = ''tshirtDesign'' then tshirtDesign a
      else if k = ''occupation'' then occupation a
      else if k = ''height'' then height a
      else accessory a)"

definition is_killer :: "player \<Rightarrow> bool" where
  "is_killer p = (role p = Some Killer)"

definition clue_target :: "lobby \<Rightarrow> bool \<Rightarrow> (nat \<Rightarrow> nat) \<Rightarrow> player option \<times> (nat \<Rightarrow> nat)" where
  "clue_target l tampered rnd =
     (if tampered then
        (let nonKillers = filter (\<lambda>p. \<not> is_killer p) (players l) in
         (case nth_opt nonKillers (rand_index (length nonKillers) (rnd 0)) of
            Some p \<Rightarrow> Some p
          | None \<Rightarrow> nth_opt (players l) 0,
          shift 1 rnd))
      else
        (case find is_killer (players l) of
           Some p \<Rightarrow> Some p
         | None \<Rightarrow> nth_opt (players l) 0,
         rnd))"

definition attribute_clue :: "player_attributes \<Rightarrow> (nat \<Rightarrow> nat) \<Rightarrow> string" where
  "attribute_clue a rnd =
     (let randomAttr = ATTRIBUTE_KEYS ! rand_index (length ATTRIBUTE_KEYS) (rnd 0);
          val = attribute_value a randomAttr
      in if randomAttr = ''height'' then getHeightClue val
         else (case map_of CLUE_MAP val of
                 Some possibleClues \<Rightarrow>
                   if length possibleClues > 0
                   then possibleClues ! rand_index (length possibleClues) (rnd 1)
                   else val
               | None \<Rightarrow> val))"

definition generateClue :: "lobby \<Rightarrow> bool \<Rightarrow> (nat \<Rightarrow> nat) \<Rightarrow> string option" where
  "generateClue l tampered rnd =
     (case clue_target l tampered rnd of
        (None, _) \<Rightarrow> None
      | (Some targetPlayer, rnd') \<Rightarrow> Some (attribute_clue (attributes targetPlayer) rnd'))"

section \<open>The vote tally (server.ts, lines 407-427)\<close>

text \<open>
  The tally \<open>votes\<close> is an object literal used as a dictionary. Its own properties are
  an association list in insertion order. Two facts of the language matter to it.
  First, an object literal inherits the properties of \<open>Object.prototype\<close>, so for one of
  the names below \<open>votes[k]\<close> is a function (or an object) even before any vote; adding 1
  to it gives a string, which no later comparison with a number satisfies: the value
  \<open>Junk\<close>. Assigning a string to \<open>__proto__\<close> stores nothing.
  Second, \<open>Object.entries\<close> lists the keys that are array indices first, in ascending
  order, and the other keys after them in insertion order.
\<close>

definition object_prototype_keys :: "string list" where
  "object_prototype_keys = [''constructor'', ''__defineGetter__'', ''__defineSetter__'',
     ''hasOwnProperty'', ''__lookupGetter__'', ''__lookupSetter__'', ''isPrototypeOf'',
     ''propertyIsEnumerable'', ''toString'', ''valueOf'', ''__proto__'', ''toLocaleString'']"

datatype tally_value = Count nat | Junk

text \<open>The truth value of a \<open>string | null\<close>: null and the empty string are falsy.\<close>

definition truthy :: "string option \<Rightarrow> bool" where
  "truthy v = (case v of None \<Rightarrow> False | Some s \<Rightarrow> s \<noteq> [])"

fun set_property :: "('k \<times> 'v) list \<Rightarrow> 'k \<Rightarrow> 'v \<Rightarrow> ('k \<times> 'v) list" where
  "set_property [] k v = [(k, v)]"
| "set_property ((k', v') # es) k v =
     (if k' = k then (k', v) # es else (k', v') # set_property es k v)"

text \<open>\<open>votes[k] = (votes[k] || 0) + 1\<close>\<close>

definition record_vote :: "(string \<times> tally_value) list \<Rightarrow> string \<Rightarrow> (string \<times> tally_value) list" where
  "record_vote votes k =
     (let v = (case map_of votes k of
                 Some (Count n) \<Rightarrow> Count (n + 1)
               | Some Junk \<Rightarrow> Junk
               | None \<Rightarrow> if k \<in> set object_prototype_keys then Junk else Count 1)
      in if k = ''__proto__'' then votes else set_property votes k v)"

definition tally :: "player list \<Rightarrow> (string \<times> tally_value) list" where
  "tally ps =
     fold (\<lambda>p votes. if truthy (votedFor p) then record_vote votes (the (votedFor p)) else votes)
       ps []"

definition is_array_index :: "string \<Rightarrow> bool" where
  "is_array_index s =
     (s \<noteq> [] \<and> list_all is_digit s \<and> (s = ''0'' \<or> hd s \<noteq> CHR ''0'')
      \<and> dec_value s < 2 ^ 32 - 1)"

definition object_entries :: "(string \<times> 'v) list \<Rightarrow> (string \<times> 'v) list" where
  "object_entries props =
     sort_key (\<lambda>e. dec_value (fst e)) (filter (\<lambda>e. is_array_index (fst e)) props)
     @ filter (\<lambda>e. \<not> is_array_index (fst e)) props"

text \<open>One turn of the \<open>for\<close> loop over the entries; the state is (maxVotes, suspectedId, tie).\<close>

fun count_step :: "string \<times> tally_value \<Rightarrow> nat \<times> string option \<times> bool \<Rightarrow> nat \<times> string option \<times> bool" where
  "count_step (k, Junk) s = s"
| "count_step (k, Count c) (maxVotes, suspectedId, tie) =
     (if c > maxVotes then (c, Some k, False)
      else if c = maxVotes then (maxVotes, suspectedId, True)
      else (maxVotes, suspectedId, tie))"

text \<open>
  \<open>suspectedId !== killer?.id\<close>: the left side is a string or null, the right side a string
  or undefined, and null is not undefined.
\<close>

fun strict_neq :: "string option \<Rightarrow> string option \<Rightarrow> bool" where
  "strict_neq (Some a) (Some b) = (a \<noteq> b)"
| "strict_neq _ _ = True"

definition resolve_votes :: "lobby \<Rightarrow> lobby" where
  "resolve_votes l =
     (let votes = tally (players l);
          (maxVotes, suspectedId, tie) = fold count_step (object_entries votes) (0, None, False);
          killer = find is_killer (players l)
      in if tie \<or> strict_neq suspectedId (map_option pid killer)
         then l\<lparr>winner := Some Killer_wins, status := Game_over\<rparr>
         else l\<lparr>status := Witness_guessing\<rparr>)"

section \<open>Event handlers (server.ts, lines 210-488)\<close>

text \<open>
  A handler is a function from the registry to the registry; \<open>sid\<close> is \<open>socket.id\<close> of the
  connection that sent the event. A handler that is given a callback also returns what
  it passes to it. Broadcasts carry a copy of the state and change nothing; they are not
  part of the model. Lobby codes are looked up as keys of a map: a code that names an
  inherited property of the registry object (such as \<open>constructor\<close>) is never a lobby,
  and no handler changes the registry for it.
\<close>

definition has_id :: "string \<Rightarrow> player \<Rightarrow> bool" where
  "has_id i p = (pid p = i)"

definition create_lobby :: "string \<Rightarrow> string \<Rightarrow> string \<Rightarrow> (nat \<Rightarrow> nat) \<Rightarrow> store \<Rightarrow> store \<times> response" where
  "create_lobby sid nm lobbyId rnd st =
     (st(lobbyId \<mapsto>
        \<lparr> lid = lobbyId, status = Lobby,
          players = [\<lparr> pid = sid, name = nm, role = None,
                       attributes = generateAttributes rnd, isHost = True, votedFor = None,
                       px = 1000, py = 1000, color = PLAYER_COLORS ! 0,
                       hasStolenClue = False \<rparr>],
          clues = [], tasks = [], startTime = None, endTime = None, winner = None \<rparr>),
      Joined lobbyId sid)"

text \<open>
  The \<open>while\<close> loop of \<open>join_lobby\<close> that makes the name unique. It ends because the
  candidates \<open>name 1\<close>, \<open>name 2\<close>, ... (the template literal, \<open>candidate\<close>) are
  pairwise different and the lobby has finitely many names.
\<close>

lemma digit_value_digit_char: "d < 10 \<Longrightarrow> digit_value (digit_char d) = d"
  by (simp add: digit_value_def digit_char_def)

lemma dec_value_snoc: "dec_value (s @ [c]) = 10 * dec_value s + digit_value c"
  by (simp add: dec_value_def)

lemma dec_value_dec: "dec_value (dec n) = n"
proof (induction n rule: dec.induct)
  case (1 n)
  show ?case
  proof (cases "n < 10")
    case True
    then have "dec n = [digit_char n]" by (simp add: dec.simps [of n])
    with True show ?thesis
      by (simp add: dec_value_def digit_value_digit_char)
  next
    case False
    with 1 have "dec_value (dec (n div 10)) = n div 10" by simp
    moreover have "dec n = dec (n div 10) @ [digit_char (n mod 10)]"
      using False by (simp add: dec.simps [of n])
    ultimately show ?thesis
      by (simp add: dec_value_snoc digit_value_digit_char)
  qed
qed

definition candidate :: "string \<Rightarrow> nat \<Rightarrow> string" where
  "candidate nm counter = nm @ '' '' @ dec counter"

lemma candidate_inj: "candidate nm a = candidate nm b \<Longrightarrow> a = b"
  by (metis candidate_def same_append_eq dec_value_dec)

lemma finite_candidates: "finite {k. (c::nat) \<le> k \<and> candidate nm k \<in> set names}"
proof -
  have "inj (candidate nm)"
    by (rule injI) (rule candidate_inj)
  then have "finite (candidate nm -` set names)"
    by (intro finite_vimageI) simp_all
  then show ?thesis
    by (rule rev_finite_subset) auto
qed

lemma split_from:
  "{k. c \<le> k \<and> P k} = (if P c then insert c {k. Suc c \<le> k \<and> P k} else {k. Suc c \<le> k \<and> P k})"
  by (auto simp: Suc_le_eq le_less)

lemma card_candidates_less:
  "candidate nm c \<in> set names \<Longrightarrow>
   card {k. Suc c \<le> k \<and> candidate nm k \<in> set names}
     < card {k. c \<le> k \<and> candidate nm k \<in> set names}"
proof -
  assume a: "candidate nm c \<in> set names"
  have fin: "finite {k. Suc c \<le> k \<and> candidate nm k \<in> set names}"
    by (rule finite_candidates)
  have notin: "c \<notin> {k. Suc c \<le> k \<and> candidate nm k \<in> set names}"
    by simp
  have "{k. c \<le> k \<and> candidate nm k \<in> set names}
      = insert c {k. Suc c \<le> k \<and> candidate nm k \<in> set names}"
    using a split_from [of c "\<lambda>k. candidate nm k \<in> set names"] by simp
  then show ?thesis
    by (simp only: card_insert_disjoint [OF fin notin])
qed

lemma card_candidates_le:
  "card {k. Suc c \<le> k \<and> candidate nm k \<in> set names}
     \<le> card {k. c \<le> k \<and> candidate nm k \<in> set names}"
  by (rule card_mono [OF finite_candidates]) auto

function unique_name :: "string list \<Rightarrow> string \<Rightarrow> string \<Rightarrow> nat \<Rightarrow> string" where
  "unique_name names nm finalName counter =
     (if finalName \<in> set names
      then unique_name names nm (candidate nm counter) (Suc counter)
      else finalName)"
  by pat_completeness auto
termination
  by (relation "measure (\<lambda>(names, nm, finalName, counter).
         card {k. counter \<le> k \<and> candidate nm k \<in> set names}
         + (if finalName \<in> set names then 1 else 0))")
     (auto simp: card_candidates_less le_imp_less_Suc card_candidates_le)

declare unique_name.simps [simp del]

definition new_player :: "string \<Rightarrow> string \<Rightarrow> (nat \<Rightarrow> nat) \<Rightarrow> nat \<Rightarrow> player" where
  "new_player sid finalName rnd n =
     \<lparr> pid = sid, name = finalName, role = None,
       attributes = generateAttributes rnd, isHost = False, votedFor = None,
       px = 1000 + rand_unit (rnd 7) * 100 - 50,
       py = 1000 + rand_unit (rnd 8) * 100 - 50,
       color = PLAYER_COLORS ! (n mod length PLAYER_COLORS),
       hasStolenClue = False \<rparr>"

definition join_lobby :: "string \<Rightarrow> string \<Rightarrow> string \<Rightarrow> (nat \<Rightarrow> nat) \<Rightarrow> store \<Rightarrow> store \<times> response" where
  "join_lobby sid lobbyId nm rnd st =
     (case st lobbyId of
        None \<Rightarrow> (st, Error ''Lobby not found'')
      | Some l \<Rightarrow>
          if status l \<noteq> Lobby then (st, Error ''Game already in progress'')
          else
            (let finalName = unique_name (map name (players l)) nm nm 1;
                 p = new_player sid finalName rnd (length (players l))
             in (st(lobbyId \<mapsto> l\<lparr>players := players l @ [p]\<rparr>), Joined lobbyId sid)))"

text \<open>\<open>lobby.players[0].isHost = true\<close>, on a list that is not empty.\<close>

fun promote_first :: "player list \<Rightarrow> player list" where
  "promote_first [] = []"
| "promote_first (p # ps) = p\<lparr>isHost := True\<rparr> # ps"

definition leave_lobby :: "string \<Rightarrow> string \<Rightarrow> store \<Rightarrow> store" where
  "leave_lobby sid lobbyId st =
     (case st lobbyId of
        None \<Rightarrow> st
      | Some l \<Rightarrow>
          (case findIndex (has_id sid) (players l) of
             None \<Rightarrow> st
           | Some playerIndex \<Rightarrow>
               (let ps = splice1 playerIndex (players l) in
                if length ps = 0 then st(lobbyId := None)
                else if status l = Lobby then st(lobbyId \<mapsto> l\<lparr>players := promote_first ps\<rparr>)
                else st(lobbyId \<mapsto> l\<lparr>players := ps\<rparr>))))"

definition start_game :: "string \<Rightarrow> string \<Rightarrow> (nat \<Rightarrow> nat) \<Rightarrow> (nat \<Rightarrow> string) \<Rightarrow> (nat \<Rightarrow> nat) \<Rightarrow> store \<Rightarrow> store" where
  "start_game sid lobbyId rnd uuid now st =
     (case st lobbyId of
        None \<Rightarrow> st
      | Some l \<Rightarrow>
          (case find (has_id sid) (players l) of
             None \<Rightarrow> st
           | Some p \<Rightarrow>
               if \<not> isHost p then st
               else if length (players l) < 3 then st
               else
                 (let n = length (players l);
                      draws = length (role_pool n) - 1
                  in st(lobbyId \<mapsto>
                       l\<lparr>players := assignRoles rnd (players l),
                         tasks := generateTasks (shift draws rnd) uuid,
                         status := Playing,
                         startTime := Some (now 0),
                         endTime := Some (now 1 + 5 * 60 * 1000)\<rparr>))))"

text \<open>The timer that \<open>start_game\<close> sets, when it fires.\<close>

definition phase_timeout :: "string \<Rightarrow> store \<Rightarrow> store" where
  "phase_timeout lobbyId st =
     (case st lobbyId of
        None \<Rightarrow> st
      | Some l \<Rightarrow> if status l = Playing then st(lobbyId \<mapsto> l\<lparr>status := Discussion\<rparr>) else st)"

definition move :: "string \<Rightarrow> string \<Rightarrow> real \<Rightarrow> real \<Rightarrow> store \<Rightarrow> store" where
  "move sid lobbyId x y st =
     (case st lobbyId of
        None \<Rightarrow> st
      | Some l \<Rightarrow>
          if status l \<noteq> Playing then st
          else
            (case find (has_id sid) (players l) of
               None \<Rightarrow> st
             | Some _ \<Rightarrow>
                 st(lobbyId \<mapsto>
                   l\<lparr>players := update_first (has_id sid) (\<lambda>p. p\<lparr>px := x, py := y\<rparr>) (players l)\<rparr>)))"

definition task_completed :: "string \<Rightarrow> string \<Rightarrow> string \<Rightarrow> (nat \<Rightarrow> nat) \<Rightarrow> (nat \<Rightarrow> string) \<Rightarrow> store \<Rightarrow> store" where
  "task_completed sid lobbyId taskId rnd uuid st =
     (case st lobbyId of
        None \<Rightarrow> st
      | Some l \<Rightarrow>
          if status l \<noteq> Playing then st
          else
            (case find (\<lambda>t. tid t = taskId) (tasks l) of
               None \<Rightarrow> st
             | Some task \<Rightarrow>
                 if completed task then st
                 else
                   (let l1 = l\<lparr>tasks := update_first (\<lambda>t. tid t = taskId)
                                           (\<lambda>t. t\<lparr>completed := True\<rparr>) (tasks l)\<rparr>
                    in case find (has_id sid) (players l1) of
                         None \<Rightarrow> st(lobbyId \<mapsto> l1)
                       | Some p \<Rightarrow>
                           (let tampered = (role p = Some Killer) in
                            case generateClue l1 tampered rnd of
                              None \<Rightarrow> st(lobbyId \<mapsto> l1)
                            | Some clueText \<Rightarrow>
                                st(lobbyId \<mapsto>
                                  l1\<lparr>clues := clues l1 @
                                      [\<lparr> cid = uuid 0, clue_text = clueText,
                                         isTampered = tampered, foundBy = pid p \<rparr>]\<rparr>)))))"

definition lock_task :: "string \<Rightarrow> string \<Rightarrow> string \<Rightarrow> store \<Rightarrow> store" where
  "lock_task sid lobbyId taskId st =
     (case st lobbyId of
        None \<Rightarrow> st
      | Some l \<Rightarrow>
          if status l \<noteq> Playing then st
          else
            (case find (\<lambda>t. tid t = taskId) (tasks l) of
               None \<Rightarrow> st
             | Some task \<Rightarrow>
                 if sid \<in> set (lockedFor task) then st
                 else st(lobbyId \<mapsto>
                        l\<lparr>tasks := update_first (\<lambda>t. tid t = taskId)
                                     (\<lambda>t. t\<lparr>lockedFor := lockedFor t @ [sid]\<rparr>) (tasks l)\<rparr>)))"

definition stealable :: "string \<Rightarrow> clue \<Rightarrow> bool" where
  "stealable targetPlayerId c = (foundBy c = targetPlayerId \<and> \<not> isTampered c)"

definition steal_clue :: "string \<Rightarrow> string \<Rightarrow> string \<Rightarrow> (nat \<Rightarrow> nat) \<Rightarrow> (nat \<Rightarrow> string) \<Rightarrow> store \<Rightarrow> store \<times> response" where
  "steal_clue sid lobbyId targetPlayerId rnd uuid st =
     (case st lobbyId of
        None \<Rightarrow> (st, Error ''Game not active'')
      | Some l \<Rightarrow>
          if status l \<noteq> Playing then (st, Error ''Game not active'')
          else
            (case find (has_id sid) (players l) of
               None \<Rightarrow> (st, Error ''Only the killer can do this'')
             | Some thief \<Rightarrow>
                 if role thief \<noteq> Some Killer then (st, Error ''Only the killer can do this'')
                 else if hasStolenClue thief then (st, Error ''Already used steal ability'')
                 else
                   (case find (has_id targetPlayerId) (players l) of
                      None \<Rightarrow> (st, Error ''Target not found'')
                    | Some target \<Rightarrow>
                        (let targetClues = filter (stealable targetPlayerId) (clues l);
                             marked = update_first (has_id sid) (\<lambda>p. p\<lparr>hasStolenClue := True\<rparr>)
                                        (players l)
                         in if length targetClues > 0 then
                              (let k = rand_index (length targetClues) (rnd 0)
                               in (st(lobbyId \<mapsto>
                                     l\<lparr>clues := update_kth_match (stealable targetPlayerId) k
                                                  (\<lambda>c. c\<lparr>isTampered := True\<rparr>) (clues l),
                                       players := marked\<rparr>),
                                   Message (''Clue from '' @ name target @ '' tampered!'')))
                            else
                              (case generateClue l True rnd of
                                 None \<Rightarrow> (st, No_response)
                               | Some fakeClueText \<Rightarrow>
                                   (st(lobbyId \<mapsto>
                                      l\<lparr>clues := clues l @
                                          [\<lparr> cid = uuid 0, clue_text = fakeClueText,
                                             isTampered = True, foundBy = targetPlayerId \<rparr>],
                                        players := marked\<rparr>),
                                    Message (''Fake clue planted on '' @ name target @ ''!'')))))))"

definition vote :: "string \<Rightarrow> string \<Rightarrow> string \<Rightarrow> store \<Rightarrow> store" where
  "vote sid lobbyId targetPlayerId st =
     (case st lobbyId of
        None \<Rightarrow> st
      | Some l \<Rightarrow>
          if status l \<noteq> Voting then st
          else
            (case find (has_id sid) (players l) of
               None \<Rightarrow> st
             | Some _ \<Rightarrow>
                 (let l1 = l\<lparr>players := update_first (has_id sid)
                                          (\<lambda>p. p\<lparr>votedFor := Some targetPlayerId\<rparr>) (players l)\<rparr>
                  in if list_all (\<lambda>p. truthy (votedFor p)) (players l1)
                     then st(lobbyId \<mapsto> resolve_votes l1)
                     else st(lobbyId \<mapsto> l1))))"

definition guess_witness :: "string \<Rightarrow> string \<Rightarrow> string \<Rightarrow> store \<Rightarrow> store" where
  "guess_witness sid lobbyId targetPlayerId st =
     (case st lobbyId of
        None \<Rightarrow> st
      | Some l \<Rightarrow>
          if status l \<noteq> Witness_guessing then st
          else
            (case find (has_id sid) (players l) of
               None \<Rightarrow> st
             | Some p \<Rightarrow>
                 if role p \<noteq> Some Killer then st
                 else
                   (let w = (case find (has_id targetPlayerId) (players l) of
                               None \<Rightarrow> Investigators_win
                             | Some target \<Rightarrow>
                                 if role target = Some Witness then Killer_wins
                                 else Investigators_win)
                    in st(lobbyId \<mapsto> l\<lparr>winner := Some w, status := Game_over\<rparr>))))"

definition start_voting :: "string \<Rightarrow> string \<Rightarrow> store \<Rightarrow> store" where
  "start_voting sid lobbyId st =
     (case st lobbyId of
        None \<Rightarrow> st
      | Some l \<Rightarrow>
          if status l \<noteq> Discussion then st
          else
            (case find (has_id sid) (players l) of
               None \<Rightarrow> st
             | Some p \<Rightarrow> if isHost p then st(lobbyId \<mapsto> l\<lparr>status := Voting\<rparr>) else st))"

text \<open>
  \<open>disconnect\<close> visits every lobby of the registry; what it does to one lobby is
  \<open>disconnect_lobby\<close>, whose result \<open>None\<close> is the deleted lobby.
\<close>

definition disconnect_lobby :: "string \<Rightarrow> lobby \<Rightarrow> lobby option" where
  "disconnect_lobby sid l =
     (case findIndex (has_id sid) (players l) of
        None \<Rightarrow> Some l
      | Some playerIndex \<Rightarrow>
          if status l = Lobby then
            (let ps = splice1 playerIndex (players l) in
             if length ps = 0 then None else Some (l\<lparr>players := promote_first ps\<rparr>))
          else Some l)"

definition disconnect :: "string \<Rightarrow> store \<Rightarrow> store" where
  "disconnect sid st =
     (\<lambda>lobbyId. case st lobbyId of None \<Rightarrow> None | Some l \<Rightarrow> disconnect_lobby sid l)"

section \<open>The server as a transition system\<close>

datatype event =
    Create_lobby string string string "nat \<Rightarrow> nat"
  | Join_lobby string string string "nat \<Rightarrow> nat"
  | Leave_lobby string string
  | Start_game string string "nat \<Rightarrow> nat" "nat \<Rightarrow> string" "nat \<Rightarrow> nat"
  | Phase_timeout string
  | Move string string real real
  | Task_completed string string string "nat \<Rightarrow> nat" "nat \<Rightarrow> string"
  | Lock_task string string string
  | Steal_clue string string string "nat \<Rightarrow> nat" "nat \<Rightarrow> string"
  | Vote string string string
  | Guess_witness string string string
  | Start_voting string string
  | Disconnect string

fun step :: "event \<Rightarrow> store \<Rightarrow> store" where
  "step (Create_lobby sid nm lobbyId rnd) st = fst (create_lobby sid nm lobbyId rnd st)"
| "step (Join_lobby sid lobbyId nm rnd) st = fst (join_lobby sid lobbyId nm rnd st)"
| "step (Leave_lobby sid lobbyId) st = leave_lobby sid lobbyId st"
| "step (Start_game sid lobbyId rnd uuid now) st = start_game sid lobbyId rnd uuid now st"
| "step (Phase_timeout lobbyId) st = phase_timeout lobbyId st"
| "step (Move sid lobbyId x y) st = move sid lobbyId x y st"
| "step (Task_completed sid lobbyId taskId rnd uuid) st =
     task_completed sid lobbyId taskId rnd uuid st"
| "step (Lock_task sid lobbyId taskId) st = lock_task sid lobbyId taskId st"
| "step (Steal_clue sid lobbyId target rnd uuid) st =
     fst (steal_clue sid lobbyId target rnd uuid st)"
| "step (Vote sid lobbyId target) st = vote sid lobbyId target st"
| "step (Guess_witness sid lobbyId target) st = guess_witness sid lobbyId target st"
| "step (Start_voting sid lobbyId) st = start_voting sid lobbyId st"
| "step (Disconnect sid) st = disconnect sid st"

text \<open>The states the server can be in: the empty registry and what events make of it.\<close>

inductive reachable :: "store \<Rightarrow> bool" where
  reachable_init: "reachable (\<lambda>_. None)"
| reachable_step: "reachable st \<Longrightarrow> reachable (step ev st)"

section \<open>Vocabulary of the properties\<close>

text \<open>
  The texts that describe a player: for each of the seven attributes, what
  \<open>generateClue\<close> can print for the player's value of it (the height bucket, one of the
  phrasings of \<open>CLUE_MAP\<close>, or the value itself where the table has no entry).
\<close>

definition attribute_texts :: "player_attributes \<Rightarrow> string \<Rightarrow> string list" where
  "attribute_texts a k =
     (let val = attribute_value a k
      in if k = ''height'' then [getHeightClue val]
         else (case map_of CLUE_MAP val of
                 Some possibleClues \<Rightarrow> if possibleClues = [] then [val] else possibleClues
               | None \<Rightarrow> [val]))"

definition possible_clues :: "player_attributes \<Rightarrow> string list" where
  "possible_clues a = concat (map (attribute_texts a) ATTRIBUTE_KEYS)"

definition describes :: "player \<Rightarrow> string \<Rightarrow> bool" where
  "describes p t = (t \<in> set (possible_clues (attributes p)))"

text \<open>
  \<open>remaining sid l\<close> is the player list of \<open>l\<close> once the first entry of connection \<open>sid\<close> is
  taken out. \<open>fresh_join\<close> holds of an event unless it is a join to a lobby by a connection
  that is already a player of it; \<open>fresh_reachable\<close> are the states that such events lead
  to from the empty registry.
\<close>

definition remaining :: "string \<Rightarrow> lobby \<Rightarrow> player list" where
  "remaining sid l =
     (case findIndex (has_id sid) (players l) of
        None \<Rightarrow> players l
      | Some i \<Rightarrow> splice1 i (players l))"

definition fresh_join :: "event \<Rightarrow> store \<Rightarrow> bool" where
  "fresh_join ev st =
     (case ev of
        Join_lobby sid lobbyId nm rnd \<Rightarrow>
          (case st lobbyId of None \<Rightarrow> True | Some l \<Rightarrow> sid \<notin> pid ` set (players l))
      | _ \<Rightarrow> True)"

inductive fresh_reachable :: "store \<Rightarrow> bool" where
  fresh_init: "fresh_reachable (\<lambda>_. None)"
| fresh_step: "fresh_reachable st \<Longrightarrow> fresh_join ev st \<Longrightarrow> fresh_reachable (step ev st)"

definition unique_ids :: "store \<Rightarrow> bool" where
  "unique_ids st = (\<forall>lobbyId l. st lobbyId = Some l \<longrightarrow> distinct (map pid (players l)))"

text \<open>
  The roles a game of \<open>n\<close> players must hand out, as a multiset: killer, witness and
  investigator for three players; killer, witness, forensics and \<open>n - 3\<close> investigators
  for four or more.
\<close>

definition expected_roles :: "nat \<Rightarrow> role multiset" where
  "expected_roles n =
     (if n = 3 then {#Killer, Witness, Investigator#}
      else {#Killer, Witness, Forensics#} + replicate_mset (n - 3) Investigator)"

text \<open>
  The vote count in the words of the specification. \<open>votes_for ps t\<close> is the number of
  players whose recorded vote is \<open>t\<close>, \<open>targets\<close> are the ids that received a vote,
  \<open>top_count\<close> is the highest number of votes and \<open>top_targets\<close> are the ids that reached
  it: there is no tie for the top count exactly when \<open>top_targets\<close> is a single id, the
  plurality target. The accusation succeeds when that single id is the id of the killer
  (the first player whose role is killer).
  A vote is countable when it is a string that is not empty and not the name of a property
  that the tally object inherits. \<open>tally_count\<close> reads the number that the tally holds
  for an id, 0 when it holds none. \<open>counts_only\<close>, \<open>loop_inv\<close> and \<open>dominates\<close> serve the
  proofs: a tally whose keys are distinct and whose values are positive numbers, the
  invariant of the loop over its entries, and an id with strictly more votes than any other.
\<close>

definition countable_vote :: "string option \<Rightarrow> bool" where
  "countable_vote v =
     (case v of None \<Rightarrow> False | Some t \<Rightarrow> t \<noteq> [] \<and> t \<notin> set object_prototype_keys)"

definition votes_for :: "player list \<Rightarrow> string \<Rightarrow> nat" where
  "votes_for ps t = length (filter (\<lambda>p. votedFor p = Some t) ps)"

definition targets :: "player list \<Rightarrow> string list" where
  "targets ps = remdups (List.map_filter votedFor ps)"

definition top_count :: "player list \<Rightarrow> nat" where
  "top_count ps = fold max (map (votes_for ps) (targets ps)) 0"

definition top_targets :: "player list \<Rightarrow> string list" where
  "top_targets ps = filter (\<lambda>t. votes_for ps t = top_count ps) (targets ps)"

definition accusation_succeeds :: "player list \<Rightarrow> bool" where
  "accusation_succeeds ps =
     (case find is_killer ps of None \<Rightarrow> False | Some k \<Rightarrow> top_targets ps = [pid k])"

definition tally_count :: "(string \<times> tally_value) list \<Rightarrow> string \<Rightarrow> nat" where
  "tally_count vs t = (case map_of vs t of Some (Count n) \<Rightarrow> n | _ \<Rightarrow> 0)"

definition counts_only :: "(string \<times> tally_value) list \<Rightarrow> bool" where
  "counts_only vs =
     (distinct (map fst vs) \<and> (\<forall>k v. (k, v) \<in> set vs \<longrightarrow> (\<exists>c. v = Count c \<and> 0 < c)))"

definition loop_inv :: "(string \<times> tally_value) list \<Rightarrow> nat \<times> string option \<times> bool \<Rightarrow> bool" where
  "loop_inv es s =
     (case s of (m, suspect, tie) \<Rightarrow>
        (\<forall>k c. (k, Count c) \<in> set es \<longrightarrow> c \<le> m)
        \<and> (es = [] \<longrightarrow> m = 0)
        \<and> (es \<noteq> [] \<longrightarrow> (\<exists>k. suspect = Some k \<and> (k, Count m) \<in> set es))
        \<and> (tie \<longleftrightarrow> (\<exists>k1 k2. k1 \<noteq> k2 \<and> (k1, Count m) \<in> set es \<and> (k2, Count m) \<in> set es)))"

definition dominates :: "player list \<Rightarrow> string \<Rightarrow> bool" where
  "dominates ps k = (0 < votes_for ps k \<and> (\<forall>t. t \<noteq> k \<longrightarrow> votes_for ps t < votes_for ps k))"

section \<open>Example states\<close>

text \<open>
  Small concrete lobbies, on which the theorems below are instantiated: three players
  \<open>A\<close>, \<open>B\<close> and \<open>C\<close> in the lobby with code \<open>L\<close>.
\<close>

definition demo_attributes :: "string \<Rightarrow> player_attributes" where
  "demo_attributes i =
     \<lparr> handedness = (if i = ''A'' then ''Left'' else ''Right''),
       hairColor = (if i = ''B'' then ''Brown'' else ''Black''),
       shoeType = ''Boots'', tshirtDesign = ''Plain'', occupation = ''Chef'',
       height = [CHR ''5'', CHR 0x27, CHR ''0'', CHR 0x22], accessory = ''Hat'' \<rparr>"

definition demo_player :: "string \<Rightarrow> role option \<Rightarrow> bool \<Rightarrow> string option \<Rightarrow> player" where
  "demo_player i r h v =
     \<lparr> pid = i, name = i, role = r, attributes = demo_attributes i, isHost = h, votedFor = v,
       px = 1000, py = 1000, color = ''#ef4444'', hasStolenClue = False \<rparr>"

definition demo_task :: "string \<Rightarrow> bool \<Rightarrow> game_task" where
  "demo_task i c =
     \<lparr> tid = i, tx = 200, ty = 200, task_type = Wordle, completed = c, lockedFor = [] \<rparr>"

definition demo_lobby :: "lobby_status \<Rightarrow> player list \<Rightarrow> lobby" where
  "demo_lobby s ps =
     \<lparr> lid = ''L'', status = s, players = ps, clues = [],
       tasks = [demo_task ''t1'' False, demo_task ''t2'' True],
       startTime = Some 0, endTime = Some 300000, winner = None \<rparr>"

definition demo_store :: "lobby \<Rightarrow> store" where
  "demo_store l = (\<lambda>_. None)(''L'' \<mapsto> l)"

definition demo_playing_lobby :: lobby where
  "demo_playing_lobby =
     demo_lobby Playing
       [demo_player ''A'' (Some Killer) True None,
        demo_player ''B'' (Some Witness) False None,
        demo_player ''C'' (Some Investigator) False None]"

definition demo_playing :: store where
  "demo_playing = demo_store demo_playing_lobby"

lemmas demo_defs = demo_playing_def demo_playing_lobby_def demo_store_def demo_lobby_def
  demo_player_def demo_task_def demo_attributes_def

definition demo_created :: store where
  "demo_created = step (Create_lobby ''A'' ''Al'' ''L'' (\<lambda>_. 0)) (\<lambda>_. None)"

definition demo_joined :: store where
  "demo_joined = step (Join_lobby ''B'' ''L'' ''Al'' (\<lambda>_. 0)) demo_created"

definition demo_double_join :: store where
  "demo_double_join = step (Join_lobby ''A'' ''L'' ''Al'' (\<lambda>_. 0)) demo_created"

definition demo_waiting_lobby :: lobby where
  "demo_waiting_lobby =
     demo_lobby Lobby
       [demo_player ''A'' None True None,
        demo_player ''B'' None False None,
        demo_player ''C'' None False None]"

definition demo_waiting :: store where
  "demo_waiting = demo_store demo_waiting_lobby"

definition demo_ballots :: "string option \<Rightarrow> string option \<Rightarrow> string option \<Rightarrow> string option \<Rightarrow> player list" where
  "demo_ballots va vb vc vd =
     [demo_player ''A'' (Some Killer) True va,
      demo_player ''B'' (Some Witness) False vb,
      demo_player ''C'' (Some Investigator) False vc,
      demo_player ''D'' (Some Forensics) False vd]"

definition demo_voting :: "string option \<Rightarrow> string option \<Rightarrow> string option \<Rightarrow> string option \<Rightarrow> lobby" where
  "demo_voting va vb vc vd = demo_lobby Voting (demo_ballots va vb vc vd)"

text \<open>
  A run of the server from the empty registry: \<open>A\<close> creates the lobby \<open>L\<close>, \<open>B\<close> and
  \<open>C\<close> join, and \<open>A\<close> starts the game with draws that make \<open>A\<close> the witness, \<open>B\<close> an
  investigator and \<open>C\<close> the killer. The task ids are \<open>0\<close>, \<open>1\<close>, ... From there the
  killer leaves (\<open>demo_killer_left\<close>), or \<open>A\<close> completes the task \<open>0\<close>
  (\<open>demo_task_done\<close>), or the timer fires, the host opens the vote and \<open>A\<close> and \<open>B\<close>
  vote (\<open>demo_voted\<close>). \<open>demo_started_lobby\<close>, \<open>demo_survivors\<close> and \<open>demo_poll\<close> are the
  lobbies these states hold.
\<close>

definition demo_host :: player where
  "demo_host =
     \<lparr> pid = ''A'', name = ''Al'', role = None, attributes = generateAttributes (\<lambda>_. 0),
       isHost = True, votedFor = None, px = 1000, py = 1000, color = PLAYER_COLORS ! 0,
       hasStolenClue = False \<rparr>"

definition demo_in_lobby :: "player list \<Rightarrow> lobby" where
  "demo_in_lobby ps =
     \<lparr> lid = ''L'', status = Lobby, players = ps, clues = [], tasks = [],
       startTime = None, endTime = None, winner = None \<rparr>"

definition demo_two :: store where
  "demo_two = step (Join_lobby ''B'' ''L'' ''Bo'' (\<lambda>_. 0)) demo_created"

definition demo_three :: store where
  "demo_three = step (Join_lobby ''C'' ''L'' ''Cy'' (\<lambda>_. 1)) demo_two"

definition demo_started :: store where
  "demo_started = step (Start_game ''A'' ''L'' (\<lambda>_. 0) dec (\<lambda>_. 0)) demo_three"

definition demo_killer_left :: store where
  "demo_killer_left = step (Leave_lobby ''C'' ''L'') demo_started"

definition demo_started_lobby :: lobby where
  "demo_started_lobby =
     \<lparr> lid = ''L'', status = Playing,
       players = [demo_host\<lparr>role := Some Witness\<rparr>,
                  (new_player ''B'' ''Bo'' (\<lambda>_. 0) 1)\<lparr>role := Some Investigator\<rparr>,
                  (new_player ''C'' ''Cy'' (\<lambda>_. 1) 2)\<lparr>role := Some Killer\<rparr>],
       clues = [], tasks = generateTasks (\<lambda>_. 0) dec,
       startTime = Some 0, endTime = Some 300000, winner = None \<rparr>"

definition demo_survivors :: lobby where
  "demo_survivors =
     demo_started_lobby\<lparr>players := [demo_host\<lparr>role := Some Witness\<rparr>,
                  (new_player ''B'' ''Bo'' (\<lambda>_. 0) 1)\<lparr>role := Some Investigator\<rparr>]\<rparr>"

definition demo_task_done :: store where
  "demo_task_done = step (Task_completed ''A'' ''L'' ''0'' (\<lambda>_. 0) (\<lambda>_. ''c1'')) demo_started"

definition demo_poll :: "string option \<Rightarrow> string option \<Rightarrow> string option \<Rightarrow> lobby" where
  "demo_poll va vb vc =
     demo_started_lobby
       \<lparr>status := Voting,
        players := [demo_host\<lparr>role := Some Witness, votedFor := va\<rparr>,
                    (new_player ''B'' ''Bo'' (\<lambda>_. 0) 1)\<lparr>role := Some Investigator, votedFor := vb\<rparr>,
                    (new_player ''C'' ''Cy'' (\<lambda>_. 1) 2)\<lparr>role := Some Killer, votedFor := vc\<rparr>]\<rparr>"

definition demo_voting_open :: store where
  "demo_voting_open = step (Start_voting ''A'' ''L'') (step (Phase_timeout ''L'') demo_started)"

definition demo_voted :: "string \<Rightarrow> string \<Rightarrow> store" where
  "demo_voted a b = step (Vote ''B'' ''L'' b) (step (Vote ''A'' ''L'' a) demo_voting_open)"

section \<open>Facts about the helpers\<close>

lemma find_has_id_None: "find (has_id i) ps = None \<longleftrightarrow> i \<notin> pid ` set ps"
  by (auto simp: find_None_iff has_id_def)

lemma find_update_first:
  "find P xs = Some x \<Longrightarrow> P (f x) \<Longrightarrow> find P (update_first P f xs) = Some (f x)"
  by (induction xs) (auto split: if_splits)

lemma find_update_first_None:
  "find P xs = None \<Longrightarrow> update_first P f xs = xs"
  by (induction xs) (auto split: if_splits)

lemma update_kth_match_nth:
  "k < length (filter P xs) \<Longrightarrow>
   \<exists>i<length xs. P (xs ! i) \<and> update_kth_match P k f xs = xs[i := f (xs ! i)]"
proof (induction xs arbitrary: k)
  case Nil
  then show ?case by simp
next
  case (Cons x xs)
  show ?case
  proof (cases "P x")
    case True
    show ?thesis
    proof (cases k)
      case 0
      with True show ?thesis by (intro exI [of _ 0]) simp
    next
      case (Suc k')
      with Cons.prems True have "k' < length (filter P xs)" by simp
      from Cons.IH [OF this] obtain i where
        "i < length xs" "P (xs ! i)" "update_kth_match P k' f xs = xs[i := f (xs ! i)]"
        by blast
      with True Suc show ?thesis by (intro exI [of _ "Suc i"]) simp
    qed
  next
    case False
    with Cons.prems have "k < length (filter P xs)" by simp
    from Cons.IH [OF this] obtain i where
      "i < length xs" "P (xs ! i)" "update_kth_match P k f xs = xs[i := f (xs ! i)]"
      by blast
    with False show ?thesis by (intro exI [of _ "Suc i"]) simp
  qed
qed

lemma rand_index_less: "0 < k \<Longrightarrow> rand_index k r < k"
  by (simp add: rand_index_def)

lemma generateClue_Some: "players l \<noteq> [] \<Longrightarrow> \<exists>t. generateClue l b rnd = Some t"
  by (cases "players l")
     (auto simp: generateClue_def clue_target_def nth_opt_def Let_def split: option.splits)

lemma attribute_clue_describes: "attribute_clue a rnd \<in> set (possible_clues a)"
proof -
  let ?k = "ATTRIBUTE_KEYS ! rand_index (length ATTRIBUTE_KEYS) (rnd 0)"
  have "rand_index (length ATTRIBUTE_KEYS) (rnd 0) < length ATTRIBUTE_KEYS"
    by (intro rand_index_less) (simp add: ATTRIBUTE_KEYS_def)
  then have k: "?k \<in> set ATTRIBUTE_KEYS"
    by (rule nth_mem)
  have "attribute_clue a rnd \<in> set (attribute_texts a ?k)"
    by (auto simp: attribute_clue_def attribute_texts_def Let_def rand_index_less
          split: option.splits)
  with k show ?thesis
    unfolding possible_clues_def set_concat by auto
qed

lemma find_flipped:
  "find (\<lambda>t. tid t = i) ts = Some task \<Longrightarrow>
   find (\<lambda>t. tid t = i) (update_first (\<lambda>t. tid t = i) (\<lambda>t. t\<lparr>completed := True\<rparr>) ts)
     = Some (task\<lparr>completed := True\<rparr>)"
  by (rule find_update_first) (auto simp: find_Some_iff)

lemma task_completed_idem:
  "task_completed sid2 lobbyId taskId rnd2 uuid2 (task_completed sid lobbyId taskId rnd uuid st)
     = task_completed sid lobbyId taskId rnd uuid st"
proof (cases "st lobbyId")
  case None
  then show ?thesis by (simp add: task_completed_def)
next
  case (Some l)
  show ?thesis
  proof (cases "status l = Playing")
    case False
    with Some show ?thesis by (simp add: task_completed_def)
  next
    case True
    show ?thesis
    proof (cases "find (\<lambda>t. tid t = taskId) (tasks l)")
      case None
      with Some True show ?thesis by (simp add: task_completed_def)
    next
      case (Some task)
      note task = this
      show ?thesis
      proof (cases "completed task")
        case True
        with \<open>st lobbyId = Some l\<close> \<open>status l = Playing\<close> task show ?thesis
          by (simp add: task_completed_def)
      next
        case False
        have "\<exists>l1. task_completed sid lobbyId taskId rnd uuid st = st(lobbyId \<mapsto> l1)
            \<and> status l1 = Playing
            \<and> tasks l1 = update_first (\<lambda>t. tid t = taskId) (\<lambda>t. t\<lparr>completed := True\<rparr>) (tasks l)"
          using \<open>st lobbyId = Some l\<close> \<open>status l = Playing\<close> task False
          by (auto simp: task_completed_def Let_def split: option.splits)
        then obtain l1 where l1: "task_completed sid lobbyId taskId rnd uuid st = st(lobbyId \<mapsto> l1)"
          "status l1 = Playing"
          "tasks l1 = update_first (\<lambda>t. tid t = taskId) (\<lambda>t. t\<lparr>completed := True\<rparr>) (tasks l)"
          by blast
        have "find (\<lambda>t. tid t = taskId) (tasks l1) = Some (task\<lparr>completed := True\<rparr>)"
          using l1(3) find_flipped [OF task] by simp
        with l1 show ?thesis
          by (simp add: task_completed_def)
      qed
    qed
  qed
qed

lemma task_completed_by_player:
  assumes "st lobbyId = Some l" and "status l = Playing"
    and "find (\<lambda>t. tid t = taskId) (tasks l) = Some task" and "\<not> completed task"
    and "find (has_id sid) (players l) = Some p"
  shows "\<exists>target. fst (clue_target (l\<lparr>tasks := update_first (\<lambda>t. tid t = taskId)
                           (\<lambda>t. t\<lparr>completed := True\<rparr>) (tasks l)\<rparr>) (role p = Some Killer) rnd) = Some target
     \<and> task_completed sid lobbyId taskId rnd uuid st lobbyId
      = Some (l\<lparr>tasks := update_first (\<lambda>t. tid t = taskId) (\<lambda>t. t\<lparr>completed := True\<rparr>) (tasks l),
               clues := clues l @
                 [\<lparr> cid = uuid 0,
                    clue_text = attribute_clue (attributes target)
                       (snd (clue_target (l\<lparr>tasks := update_first (\<lambda>t. tid t = taskId)
                           (\<lambda>t. t\<lparr>completed := True\<rparr>) (tasks l)\<rparr>) (role p = Some Killer) rnd)),
                    isTampered = (role p = Some Killer), foundBy = pid p \<rparr>]\<rparr>)"
proof -
  let ?l1 = "l\<lparr>tasks := update_first (\<lambda>t. tid t = taskId) (\<lambda>t. t\<lparr>completed := True\<rparr>) (tasks l)\<rparr>"
  from assms(5) have "players ?l1 \<noteq> []" by auto
  then obtain t where t: "generateClue ?l1 (role p = Some Killer) rnd = Some t"
    using generateClue_Some by blast
  then obtain target where target:
    "fst (clue_target ?l1 (role p = Some Killer) rnd) = Some target"
    "t = attribute_clue (attributes target) (snd (clue_target ?l1 (role p = Some Killer) rnd))"
    by (auto simp: generateClue_def split: prod.splits option.splits)
  show ?thesis
    using assms t target
    by (intro exI [of _ target]) (simp add: task_completed_def Let_def)
qed


lemma clue_target_truthful:
  "find is_killer (players l) = Some k \<Longrightarrow> fst (clue_target l False rnd) = Some k"
  by (simp add: clue_target_def)

lemma clue_target_decoy:
  assumes "\<exists>q \<in> set (players l). \<not> is_killer q"
  shows "\<exists>q \<in> set (players l). \<not> is_killer q \<and> fst (clue_target l True rnd) = Some q"
proof -
  let ?nk = "filter (\<lambda>p. \<not> is_killer p) (players l)"
  from assms have "?nk \<noteq> []" by (auto simp: filter_empty_conv)
  then have lt: "rand_index (length ?nk) (rnd 0) < length ?nk"
    by (intro rand_index_less) simp
  then have "?nk ! rand_index (length ?nk) (rnd 0) \<in> set ?nk"
    by (rule nth_mem)
  with lt show ?thesis
    by (auto simp: clue_target_def nth_opt_def Let_def)
qed

lemma demo_playing_lookup: "demo_playing ''L'' = Some demo_playing_lobby"
  by (simp add: demo_playing_def demo_store_def)

lemma demo_playing_status: "status demo_playing_lobby = Playing"
  by (simp add: demo_playing_lobby_def demo_lobby_def)

lemma demo_playing_task:
  "find (\<lambda>t. tid t = ''t1'') (tasks demo_playing_lobby) = Some (demo_task ''t1'' False)"
  "\<not> completed (demo_task ''t1'' False)"
  by (simp_all add: demo_playing_lobby_def demo_lobby_def demo_task_def)

lemma demo_playing_players:
  "find (has_id ''A'') (players demo_playing_lobby) = Some (demo_player ''A'' (Some Killer) True None)"
  "find (has_id ''B'') (players demo_playing_lobby) = Some (demo_player ''B'' (Some Witness) False None)"
  "find is_killer (players demo_playing_lobby) = Some (demo_player ''A'' (Some Killer) True None)"
  by (simp_all add: demo_playing_lobby_def demo_lobby_def demo_player_def has_id_def is_killer_def)

lemma findIndex_Some:
  "findIndex P xs = Some i \<Longrightarrow> i < length xs \<and> P (xs ! i) \<and> (\<forall>j<i. \<not> P (xs ! j))"
proof (induction xs arbitrary: i)
  case Nil
  then show ?case by simp
next
  case (Cons x xs)
  show ?case
  proof (cases "P x")
    case True
    with Cons.prems show ?thesis by simp
  next
    case False
    with Cons.prems obtain i' where i': "findIndex P xs = Some i'" "i = Suc i'"
      by (auto split: option.splits)
    from Cons.IH [OF i'(1)] False i'(2) show ?thesis
      by (auto simp: less_Suc_eq_0_disj)
  qed
qed

lemma findIndex_None: "findIndex P xs = None \<longleftrightarrow> (\<forall>x \<in> set xs. \<not> P x)"
  by (induction xs) (auto split: option.splits)

lemma map_splice1: "map f (splice1 i xs) = splice1 i (map f xs)"
  by (simp add: splice1_def take_map drop_map)

lemma set_drop_Suc: "set (drop (Suc i) xs) \<subseteq> set (drop i xs)"
proof -
  have "drop (Suc i) xs = drop 1 (drop i xs)" by simp
  then show ?thesis by (metis set_drop_subset)
qed

lemma distinct_splice1: "distinct xs \<Longrightarrow> distinct (splice1 i xs)"
proof -
  assume "distinct xs"
  then have "distinct (take i xs @ drop i xs)" by simp
  then have "distinct (take i xs)" "set (take i xs) \<inter> set (drop i xs) = {}"
    by (simp_all only: distinct_append) 
  moreover have "distinct (drop (Suc i) xs)"
    using \<open>distinct xs\<close> by (rule distinct_drop)
  ultimately show ?thesis
    using set_drop_Suc [of i xs] by (auto simp: splice1_def)
qed

lemma pid_promote_first: "map pid (promote_first ps) = map pid ps"
  by (cases ps) simp_all

lemma map_update_first: "(\<And>x. g (f x) = g x) \<Longrightarrow> map g (update_first P f xs) = map g xs"
  by (induction xs) simp_all

lemma length_shuffle_loop: "length (shuffle_loop i rnd xs) = length xs"
  by (induction i arbitrary: rnd xs) (simp_all add: swap_def Let_def)

lemma pad_roles_eq: "pad_roles n roles = roles @ replicate (n - length roles) Investigator"
proof (induction n roles rule: pad_roles.induct)
  case (1 n roles)
  show ?case
  proof (cases "length roles < n")
    case True
    then have "n - length roles = Suc (n - Suc (length roles))" by simp
    moreover have "pad_roles n roles = pad_roles n (roles @ [Investigator])"
      using True by (simp add: pad_roles.simps [of n roles])
    ultimately show ?thesis
      using 1 [OF True] by (simp add: replicate_app_Cons_same)
  next
    case False
    then show ?thesis by (simp add: pad_roles.simps [of n roles])
  qed
qed

lemma length_role_pool: "length (role_pool n) = max 3 n"
  by (auto simp: role_pool_def pad_roles_eq)

lemma pid_assignRoles: "map pid (assignRoles rnd ps) = map pid ps"
proof -
  let ?rs = "shuffle_loop (length (role_pool (length ps)) - 1) rnd (role_pool (length ps))"
  have len: "length ps \<le> length ?rs"
    by (simp add: length_shuffle_loop length_role_pool)
  have "map pid (map (\<lambda>(p, r). p\<lparr>role := Some r\<rparr>) (zip ps ?rs)) = map pid (map fst (zip ps ?rs))"
    by (simp add: case_prod_unfold)
  also have "map fst (zip ps ?rs) = take (length ?rs) ps"
    by (simp add: map_fst_zip_take min_def)
  also have "\<dots> = ps" using len by simp
  finally show ?thesis by (simp add: assignRoles_def Let_def)
qed


lemma filter_isHost_promote:
  assumes "ps \<noteq> []" and "\<forall>p \<in> set ps. \<not> isHost p"
  shows "filter isHost (promote_first ps) = [(hd ps)\<lparr>isHost := True\<rparr>]"
  using assms by (cases ps) (simp_all add: filter_empty_conv)

lemma players_resolve_votes: "players (resolve_votes l) = players l"
  by (simp add: resolve_votes_def Let_def split: prod.splits)

lemma unique_create: "unique_ids st \<Longrightarrow> unique_ids (fst (create_lobby sid nm lobbyId rnd st))"
  by (simp add: unique_ids_def create_lobby_def)

lemma unique_join:
  "unique_ids st \<Longrightarrow> fresh_join (Join_lobby sid lobbyId nm rnd) st \<Longrightarrow>
   unique_ids (fst (join_lobby sid lobbyId nm rnd st))"
  by (auto simp: unique_ids_def join_lobby_def fresh_join_def new_player_def Let_def
        split: option.splits if_splits)

lemma unique_leave: "unique_ids st \<Longrightarrow> unique_ids (leave_lobby sid lobbyId st)"
  by (auto simp: unique_ids_def leave_lobby_def Let_def pid_promote_first map_splice1
        distinct_splice1 split: option.splits if_splits)

lemma unique_disconnect: "unique_ids st \<Longrightarrow> unique_ids (disconnect sid st)"
  by (auto simp: unique_ids_def disconnect_def disconnect_lobby_def Let_def pid_promote_first
        map_splice1 distinct_splice1 split: option.splits if_splits)

lemma unique_start_game: "unique_ids st \<Longrightarrow> unique_ids (start_game sid lobbyId rnd uuid now st)"
  by (auto simp: unique_ids_def start_game_def Let_def pid_assignRoles
        split: option.splits if_splits)

lemma unique_phase_timeout: "unique_ids st \<Longrightarrow> unique_ids (phase_timeout lobbyId st)"
  by (auto simp: unique_ids_def phase_timeout_def split: option.splits if_splits)

lemma unique_move: "unique_ids st \<Longrightarrow> unique_ids (move sid lobbyId x y st)"
  by (auto simp: unique_ids_def move_def map_update_first split: option.splits if_splits)

lemma unique_task_completed:
  "unique_ids st \<Longrightarrow> unique_ids (task_completed sid lobbyId taskId rnd uuid st)"
  by (auto simp: unique_ids_def task_completed_def Let_def split: option.splits if_splits)

lemma unique_lock_task: "unique_ids st \<Longrightarrow> unique_ids (lock_task sid lobbyId taskId st)"
  by (auto simp: unique_ids_def lock_task_def split: option.splits if_splits)

lemma unique_steal_clue:
  "unique_ids st \<Longrightarrow> unique_ids (fst (steal_clue sid lobbyId target rnd uuid st))"
  by (auto simp: unique_ids_def steal_clue_def Let_def map_update_first
        split: option.splits if_splits)

lemma unique_vote: "unique_ids st \<Longrightarrow> unique_ids (vote sid lobbyId target st)"
  by (auto simp: unique_ids_def vote_def Let_def map_update_first players_resolve_votes
        split: option.splits if_splits)

lemma unique_guess_witness: "unique_ids st \<Longrightarrow> unique_ids (guess_witness sid lobbyId target st)"
  by (auto simp: unique_ids_def guess_witness_def Let_def split: option.splits if_splits)

lemma unique_start_voting: "unique_ids st \<Longrightarrow> unique_ids (start_voting sid lobbyId st)"
  by (auto simp: unique_ids_def start_voting_def split: option.splits if_splits)

lemma unique_step: "unique_ids st \<Longrightarrow> fresh_join ev st \<Longrightarrow> unique_ids (step ev st)"
  by (cases ev)
     (simp_all add: unique_create unique_join unique_leave unique_disconnect unique_start_game
        unique_phase_timeout unique_move unique_task_completed unique_lock_task
        unique_steal_clue unique_vote unique_guess_witness unique_start_voting)

lemma mset_shuffle_loop: "i < length xs \<Longrightarrow> mset (shuffle_loop i rnd xs) = mset xs"
proof (induction i arbitrary: rnd xs)
  case 0
  show ?case by simp
next
  case (Suc i)
  let ?j = "rand_index (Suc i + 1) (rnd 0)"
  have "?j < Suc i + 1" by (intro rand_index_less) simp
  with Suc.prems have j: "?j < length xs" by simp
  have "mset (swap (Suc i) ?j xs) = mset xs"
    unfolding swap_def using mset_swap [OF j Suc.prems] by simp
  moreover have "i < length (swap (Suc i) ?j xs)"
    using Suc.prems by (simp add: swap_def)
  ultimately show ?case
    using Suc.IH [of "swap (Suc i) ?j xs" "shift 1 rnd"] by (simp add: Let_def)
qed

lemma mset_role_pool: "3 \<le> n \<Longrightarrow> mset (role_pool n) = expected_roles n"
proof (cases "n = 3")
  case True
  then show ?thesis by (simp add: role_pool_def pad_roles_eq expected_roles_def)
next
  case False
  assume "3 \<le> n"
  with False have "4 \<le> n" by simp
  then obtain m where m: "n = m + 4"
    by (auto simp: le_iff_add)
  then have "n - 3 = Suc m" by simp
  with m show ?thesis
    by (simp add: role_pool_def pad_roles_eq expected_roles_def)
qed

lemma roles_assignRoles:
  assumes "3 \<le> length ps"
  shows "map role (assignRoles rnd ps)
     = map Some (shuffle_loop (length ps - 1) rnd (role_pool (length ps)))"
proof -
  let ?n = "length ps"
  let ?rs = "shuffle_loop (length (role_pool ?n) - 1) rnd (role_pool ?n)"
  have len: "length ?rs = ?n"
    using assms by (simp add: length_shuffle_loop length_role_pool)
  have "map role (assignRoles rnd ps) = map (\<lambda>x. Some (snd x)) (zip ps ?rs)"
    by (simp add: assignRoles_def Let_def case_prod_unfold)
  also have "\<dots> = map Some (map snd (zip ps ?rs))" by simp
  also have "map snd (zip ps ?rs) = ?rs"
    using len by simp
  finally show ?thesis
    using assms by (simp add: length_role_pool max_def)
qed

lemma mset_roles_assignRoles:
  assumes "3 \<le> length ps"
  shows "mset (map role (assignRoles rnd ps)) = image_mset Some (expected_roles (length ps))"
proof -
  have "length ps - 1 < length (role_pool (length ps))"
    using assms by (simp add: length_role_pool)
  then have "mset (shuffle_loop (length ps - 1) rnd (role_pool (length ps)))
      = expected_roles (length ps)"
    using assms by (simp add: mset_shuffle_loop mset_role_pool)
  then show ?thesis
    by (simp add: roles_assignRoles [OF assms])
qed

lemma count_roles:
  "length (filter (\<lambda>p. role p = r) ps) = count (mset (map role ps)) r"
  by (induction ps) simp_all

lemma count_expected_killer: "count (image_mset Some (expected_roles n)) (Some Killer) = 1"
  by (simp add: expected_roles_def)


lemma count_expected_witness: "count (image_mset Some (expected_roles n)) (Some Witness) = 1"
  by (simp add: expected_roles_def)

lemma none_not_expected: "None \<notin># image_mset Some (expected_roles n)"
  by auto

lemma map_of_set_property: "map_of (set_property es k v) = (map_of es)(k \<mapsto> v)"
  by (induction es) (auto simp: fun_eq_iff)

lemma keys_set_property:
  "map fst (set_property es k v) = (if k \<in> fst ` set es then map fst es else map fst es @ [k])"
  by (induction es) (force split: if_splits)+

lemma set_set_property: "set (set_property es k v) \<subseteq> insert (k, v) (set es)"
  by (induction es) (auto split: if_splits)

lemma counts_only_set_property:
  assumes "counts_only vs" and "0 < c"
  shows "counts_only (set_property vs k (Count c))"
proof -
  have "distinct (map fst (set_property vs k (Count c)))"
    using assms(1) by (auto simp: keys_set_property counts_only_def)
  moreover have "\<exists>c'. v = Count c' \<and> 0 < c'" if "(k', v) \<in> set (set_property vs k (Count c))" for k' v
    using that set_set_property [of vs k "Count c"] assms by (auto simp: counts_only_def)
  ultimately show ?thesis by (simp add: counts_only_def)
qed

lemma counts_only_lookup:
  "counts_only vs \<Longrightarrow> map_of vs k = None \<or> (\<exists>c. map_of vs k = Some (Count c) \<and> 0 < c)"
  by (cases "map_of vs k") (auto simp: counts_only_def dest: map_of_SomeD)

lemma record_vote_countable:
  assumes "counts_only vs" and "k \<noteq> []" and "k \<notin> set object_prototype_keys"
  shows "record_vote vs k = set_property vs k (Count (tally_count vs k + 1))"
proof -
  have "k \<noteq> ''__proto__''"
    using assms(3) by (auto simp: object_prototype_keys_def)
  with counts_only_lookup [OF assms(1), of k] assms(3) show ?thesis
    by (auto simp: record_vote_def tally_count_def)
qed

lemma tally_count_set_property:
  "tally_count (set_property vs k (Count c)) t = (if t = k then c else tally_count vs t)"
  by (simp add: tally_count_def map_of_set_property)

lemma fold_tally:
  assumes "counts_only vs" and "list_all (\<lambda>p. countable_vote (votedFor p)) ps"
  shows "counts_only (fold (\<lambda>p votes. if truthy (votedFor p)
                                      then record_vote votes (the (votedFor p)) else votes) ps vs)
       \<and> (\<forall>t. tally_count (fold (\<lambda>p votes. if truthy (votedFor p)
                                      then record_vote votes (the (votedFor p)) else votes) ps vs) t
              = tally_count vs t + votes_for ps t)"
  using assms
proof (induction ps arbitrary: vs)
  case Nil
  then show ?case by (simp add: votes_for_def)
next
  case (Cons p ps)
  from Cons.prems(2) obtain k where k: "votedFor p = Some k" "k \<noteq> []" "k \<notin> set object_prototype_keys"
    by (auto simp: countable_vote_def split: option.splits)
  let ?vs' = "set_property vs k (Count (tally_count vs k + 1))"
  have rv: "record_vote vs k = ?vs'"
    by (rule record_vote_countable [OF Cons.prems(1) k(2,3)])
  have c: "counts_only ?vs'"
    by (rule counts_only_set_property [OF Cons.prems(1)]) simp
  from Cons.prems(2) have rest: "list_all (\<lambda>p. countable_vote (votedFor p)) ps" by simp
  from Cons.IH [OF c rest] k rv show ?case
    by (auto simp: truthy_def votes_for_def tally_count_set_property)
qed

lemma counts_only_Nil: "counts_only []"
  by (simp add: counts_only_def)

lemma tally_counts:
  assumes "list_all (\<lambda>p. countable_vote (votedFor p)) ps"
  shows "counts_only (tally ps)" and "tally_count (tally ps) t = votes_for ps t"
  using fold_tally [OF counts_only_Nil assms] by (simp_all add: tally_def tally_count_def)

lemma tally_entry:
  assumes "list_all (\<lambda>p. countable_vote (votedFor p)) ps"
  shows "(k, v) \<in> set (tally ps) \<longleftrightarrow> (v = Count (votes_for ps k) \<and> 0 < votes_for ps k)"
proof -
  have d: "distinct (map fst (tally ps))"
    using tally_counts(1) [OF assms] by (simp add: counts_only_def)
  have tc: "tally_count (tally ps) k = votes_for ps k"
    by (rule tally_counts(2) [OF assms])
  show ?thesis
  proof
    assume m: "(k, v) \<in> set (tally ps)"
    then obtain c where "v = Count c" "0 < c"
      using tally_counts(1) [OF assms] by (auto simp: counts_only_def)
    moreover from m d have "map_of (tally ps) k = Some v" by simp
    ultimately show "v = Count (votes_for ps k) \<and> 0 < votes_for ps k"
      using tc by (simp add: tally_count_def)
  next
    assume r: "v = Count (votes_for ps k) \<and> 0 < votes_for ps k"
    from counts_only_lookup [OF tally_counts(1) [OF assms], of k] tc r
    have "map_of (tally ps) k = Some v"
      by (auto simp: tally_count_def)
    then show "(k, v) \<in> set (tally ps)" by (rule map_of_SomeD)
  qed
qed

lemma mset_object_entries: "mset (object_entries es) = mset es"
  by (simp add: object_entries_def)

lemma set_object_entries: "set (object_entries es) = set es"
  by (metis mset_object_entries set_mset_mset)

lemma distinct_keys_object_entries:
  "distinct (map fst (object_entries es)) \<longleftrightarrow> distinct (map fst es)"
proof -
  have "mset (map fst (object_entries es)) = mset (map fst es)"
    by (simp add: mset_object_entries)
  then show ?thesis by (rule mset_eq_imp_distinct_iff)
qed

lemma loop_inv_fold:
  assumes "counts_only es"
  shows "loop_inv es (fold count_step es (0, None, False))"
  using assms
proof (induction es rule: rev_induct)
  case Nil
  show ?case by (simp add: loop_inv_def)
next
  case (snoc e es)
  from snoc.prems have co: "counts_only es"
    by (auto simp: counts_only_def)
  obtain k v where e: "e = (k, v)" by (cases e)
  from snoc.prems e have "\<exists>c. v = Count c \<and> 0 < c"
    unfolding counts_only_def by (metis in_set_conv_decomp)
  then obtain c where c: "v = Count c" "0 < c"
    by blast
  from snoc.prems e have fresh: "\<And>v'. (k, v') \<notin> set es"
    by (force simp: counts_only_def)
  obtain m suspect tie where st: "fold count_step es (0, None, False) = (m, suspect, tie)"
    by (cases "fold count_step es (0, None, False)")
  from snoc.IH [OF co] st have inv:
    "\<And>k' c'. (k', Count c') \<in> set es \<Longrightarrow> c' \<le> m"
    "es = [] \<Longrightarrow> m = 0"
    "es \<noteq> [] \<Longrightarrow> \<exists>k'. suspect = Some k' \<and> (k', Count m) \<in> set es"
    "tie \<longleftrightarrow> (\<exists>k1 k2. k1 \<noteq> k2 \<and> (k1, Count m) \<in> set es \<and> (k2, Count m) \<in> set es)"
    by (auto simp: loop_inv_def)
  consider "m < c" | "c = m" | "c < m" by linarith
  then show ?case
  proof cases
    case 1
    then have "fold count_step (es @ [e]) (0, None, False) = (c, Some k, False)"
      using st e c by simp
    moreover have "loop_inv (es @ [(k, Count c)]) (c, Some k, False)"
      unfolding loop_inv_def using inv(1) 1 by (fastforce simp: not_le)
    ultimately show ?thesis using e c by simp
  next
    case 2
    then have r: "fold count_step (es @ [e]) (0, None, False) = (m, suspect, True)"
      using st e c by simp
    from 2 c inv(2) have "es \<noteq> []" by auto
    from inv(3) [OF this] obtain k0 where k0: "suspect = Some k0" "(k0, Count m) \<in> set es"
      by blast
    with fresh have "k0 \<noteq> k" by auto
    with k0 2 have "\<exists>k1 k2. k1 \<noteq> k2 \<and> (k1, Count m) \<in> set (es @ [(k, Count c)])
        \<and> (k2, Count m) \<in> set (es @ [(k, Count c)])"
      by (intro exI [of _ k0] exI [of _ k]) simp
    then have "loop_inv (es @ [(k, Count c)]) (m, suspect, True)"
      unfolding loop_inv_def using inv(1) 2 k0 by auto
    with r e c show ?thesis by simp
  next
    case 3
    then have r: "fold count_step (es @ [e]) (0, None, False) = (m, suspect, tie)"
      using st e c by simp
    from 3 inv(2) have ne: "es \<noteq> []" by auto
    have "loop_inv (es @ [(k, Count c)]) (m, suspect, tie)"
      unfolding loop_inv_def using inv(1) inv(3) [OF ne] inv(4) 3 by auto
    with r e c show ?thesis by simp
  qed
qed

lemma votes_for_pos: "0 < votes_for ps t \<longleftrightarrow> (\<exists>p \<in> set ps. votedFor p = Some t)"
  by (auto simp: votes_for_def filter_empty_conv)

lemma set_map_filter_votes:
  "set (List.map_filter votedFor ps) = {t. \<exists>p \<in> set ps. votedFor p = Some t}"
  by (induction ps) (auto split: option.splits)

lemma set_targets: "set (targets ps) = {t. 0 < votes_for ps t}"
  by (simp add: targets_def set_map_filter_votes votes_for_pos)

lemma distinct_targets: "distinct (targets ps)"
  by (simp add: targets_def)

lemma fold_max_ge: "(a::nat) \<le> fold max xs a"
  by (induction xs arbitrary: a) (auto intro: order_trans [OF max.cobounded2])

lemma fold_max_upper: "x \<in> set xs \<Longrightarrow> (x::nat) \<le> fold max xs a"
proof (induction xs arbitrary: a)
  case Nil
  then show ?case by simp
next
  case (Cons y ys)
  show ?case
  proof (cases "x = y")
    case True
    have "y \<le> max y a" by simp
    also have "\<dots> \<le> fold max ys (max y a)" by (rule fold_max_ge)
    finally show ?thesis using True by simp
  next
    case False
    with Cons.prems have "x \<in> set ys" by simp
    from Cons.IH [OF this] show ?thesis by simp
  qed
qed

lemma fold_max_attained: "fold max xs (a::nat) = a \<or> fold max xs a \<in> set xs"
proof (induction xs arbitrary: a)
  case Nil
  show ?case by simp
next
  case (Cons y ys)
  from Cons.IH [of "max y a"] show ?case
    by (auto simp: max_def split: if_splits)
qed

lemma top_count_upper: "votes_for ps t \<le> top_count ps"
proof (cases "0 < votes_for ps t")
  case True
  then have "votes_for ps t \<in> set (map (votes_for ps) (targets ps))"
    by (simp add: set_targets)
  then show ?thesis
    unfolding top_count_def by (rule fold_max_upper)
next
  case False
  then show ?thesis by simp
qed

lemma top_count_attained:
  assumes "0 < votes_for ps k"
  shows "\<exists>t. 0 < votes_for ps t \<and> votes_for ps t = top_count ps"
proof -
  from fold_max_attained [of "map (votes_for ps) (targets ps)" 0]
  consider "top_count ps = 0" | "top_count ps \<in> set (map (votes_for ps) (targets ps))"
    by (auto simp: top_count_def)
  then show ?thesis
  proof cases
    case 1
    with top_count_upper [of ps k] assms show ?thesis by simp
  next
    case 2
    then show ?thesis by (auto simp: set_targets)
  qed
qed

lemma filter_eq_singleton:
  assumes "distinct xs" and "x \<in> set xs" and "\<And>y. y \<in> set xs \<Longrightarrow> P y \<longleftrightarrow> y = x"
  shows "filter P xs = [x]"
  using assms
proof (induction xs)
  case Nil
  then show ?case by simp
next
  case (Cons y ys)
  show ?case
  proof (cases "y = x")
    case True
    with Cons.prems have "\<forall>z \<in> set ys. \<not> P z" by auto
    then have "filter P ys = []" by (simp add: filter_empty_conv)
    with True Cons.prems(3) [of y] show ?thesis by simp
  next
    case False
    with Cons.prems have "distinct ys" "x \<in> set ys" "\<And>z. z \<in> set ys \<Longrightarrow> P z \<longleftrightarrow> z = x"
      by auto
    from Cons.IH [OF this] False Cons.prems(3) [of y] show ?thesis by simp
  qed
qed

lemma top_targets_single: "top_targets ps = [k] \<longleftrightarrow> dominates ps k"
proof
  assume a: "top_targets ps = [k]"
  then have "k \<in> set (top_targets ps)" by simp
  then have k: "0 < votes_for ps k" "votes_for ps k = top_count ps"
    by (simp_all add: top_targets_def set_targets)
  have "votes_for ps t < votes_for ps k" if "t \<noteq> k" for t
  proof (cases "0 < votes_for ps t")
    case True
    have "votes_for ps t \<noteq> top_count ps"
    proof
      assume "votes_for ps t = top_count ps"
      with True have "t \<in> set (top_targets ps)"
        by (simp add: top_targets_def set_targets)
      with a that show False by simp
    qed
    with top_count_upper [of ps t] k(2) show ?thesis by simp
  next
    case False
    with k(1) show ?thesis by simp
  qed
  with k(1) show "dominates ps k" by (simp add: dominates_def)
next
  assume d: "dominates ps k"
  then have pos: "0 < votes_for ps k" by (simp add: dominates_def)
  from top_count_attained [OF pos] obtain t where t: "votes_for ps t = top_count ps" by blast
  have "t = k"
  proof (rule ccontr)
    assume "t \<noteq> k"
    with d have "votes_for ps t < votes_for ps k" by (simp add: dominates_def)
    with t top_count_upper [of ps k] show False by simp
  qed
  with t have top: "top_count ps = votes_for ps k" by simp
  show "top_targets ps = [k]"
    unfolding top_targets_def
  proof (rule filter_eq_singleton [OF distinct_targets])
    show "k \<in> set (targets ps)" using pos by (simp add: set_targets)
  next
    fix y assume "y \<in> set (targets ps)"
    show "votes_for ps y = top_count ps \<longleftrightarrow> y = k"
      using d top by (auto simp: dominates_def)
  qed
qed

lemma loop_decides:
  assumes cv: "list_all (\<lambda>p. countable_vote (votedFor p)) ps" and ne: "ps \<noteq> []"
    and f: "fold count_step (object_entries (tally ps)) (0, None, False) = (m, suspect, tie)"
  shows "suspect \<noteq> None" and "(\<not> tie \<and> suspect = Some k) \<longleftrightarrow> dominates ps k"
proof -
  let ?es = "object_entries (tally ps)"
  have entry: "(t, v) \<in> set ?es \<longleftrightarrow> (v = Count (votes_for ps t) \<and> 0 < votes_for ps t)" for t v
    by (simp add: set_object_entries tally_entry [OF cv])
  have co: "counts_only ?es"
    using tally_counts(1) [OF cv]
    by (simp add: counts_only_def distinct_keys_object_entries set_object_entries)
  from ne obtain p where "p \<in> set ps" by (cases ps) auto
  with cv obtain t0 where "votedFor p = Some t0"
    by (auto simp: list_all_iff countable_vote_def split: option.splits)
  with \<open>p \<in> set ps\<close> have "0 < votes_for ps t0" by (auto simp: votes_for_pos)
  then have "(t0, Count (votes_for ps t0)) \<in> set ?es" by (simp add: entry)
  then have nonempty: "?es \<noteq> []" by auto
  from loop_inv_fold [OF co] f nonempty have inv:
    "\<And>t c. (t, Count c) \<in> set ?es \<Longrightarrow> c \<le> m"
    "\<exists>k0. suspect = Some k0 \<and> (k0, Count m) \<in> set ?es"
    "tie \<longleftrightarrow> (\<exists>k1 k2. k1 \<noteq> k2 \<and> (k1, Count m) \<in> set ?es \<and> (k2, Count m) \<in> set ?es)"
    by (auto simp: loop_inv_def)
  from inv(2) obtain k0 where k0: "suspect = Some k0" "m = votes_for ps k0" "0 < votes_for ps k0"
    by (auto simp: entry)
  show "suspect \<noteq> None" using k0 by simp
  have upper: "votes_for ps t \<le> m" for t
  proof (cases "0 < votes_for ps t")
    case True
    then have "(t, Count (votes_for ps t)) \<in> set ?es" by (simp add: entry)
    then show ?thesis by (rule inv(1))
  next
    case False
    then show ?thesis by simp
  qed
  have at_top: "(t, Count m) \<in> set ?es \<longleftrightarrow> votes_for ps t = m" for t
    using k0(2,3) by (auto simp: entry)
  have tie_iff: "tie \<longleftrightarrow> (\<exists>k1 k2. k1 \<noteq> k2 \<and> votes_for ps k1 = m \<and> votes_for ps k2 = m)"
    by (simp only: inv(3) at_top)
  show "(\<not> tie \<and> suspect = Some k) \<longleftrightarrow> dominates ps k"
  proof
    assume a: "\<not> tie \<and> suspect = Some k"
    with k0 have k: "k0 = k" by simp
    have "votes_for ps t < votes_for ps k" if "t \<noteq> k" for t
    proof -
      have "votes_for ps t \<noteq> m"
        using a tie_iff that k k0(2) by auto
      with upper [of t] k k0(2) show ?thesis by simp
    qed
    with k k0(3) show "dominates ps k" by (simp add: dominates_def)
  next
    assume d: "dominates ps k"
    have "k0 = k"
    proof (rule ccontr)
      assume "k0 \<noteq> k"
      with d have "votes_for ps k0 < votes_for ps k" by (simp add: dominates_def)
      with upper [of k] k0(2) show False by simp
    qed
    moreover have "\<not> tie"
    proof
      assume tie
      with tie_iff obtain k1 k2 where "k1 \<noteq> k2" "votes_for ps k1 = m" "votes_for ps k2 = m"
        by blast
      then have "\<exists>t. t \<noteq> k \<and> votes_for ps t = m"
        by (cases "k1 = k") metis+
      then obtain t where "t \<noteq> k" "votes_for ps t = m"
        by blast
      with d \<open>k0 = k\<close> k0(2) show False by (auto simp: dominates_def)
    qed
    ultimately show "\<not> tie \<and> suspect = Some k" using k0(1) by simp
  qed
qed

lemma resolve_votes_eq:
  assumes cv: "list_all (\<lambda>p. countable_vote (votedFor p)) (players l)" and ne: "players l \<noteq> []"
  shows "resolve_votes l =
     (if accusation_succeeds (players l) then l\<lparr>status := Witness_guessing\<rparr>
      else l\<lparr>winner := Some Killer_wins, status := Game_over\<rparr>)"
proof -
  obtain m suspect tie where
    f: "fold count_step (object_entries (tally (players l))) (0, None, False) = (m, suspect, tie)"
    by (cases "fold count_step (object_entries (tally (players l))) (0, None, False)")
  from loop_decides(1) [OF cv ne f] obtain k0 where k0: "suspect = Some k0" by auto
  show ?thesis
  proof (cases "find is_killer (players l)")
    case None
    with f show ?thesis
      by (simp add: resolve_votes_def accusation_succeeds_def)
  next
    case (Some kp)
    have "(\<not> tie \<and> suspect = Some (pid kp)) \<longleftrightarrow> top_targets (players l) = [pid kp]"
      using loop_decides(2) [OF cv ne f] by (simp add: top_targets_single)
    with k0 have "(tie \<or> strict_neq suspect (Some (pid kp))) \<longleftrightarrow> top_targets (players l) \<noteq> [pid kp]"
      by auto
    with f Some show ?thesis
      by (simp add: resolve_votes_def accusation_succeeds_def)
  qed
qed

lemma vote_recorded:
  assumes "st lobbyId = Some l" and "status l = Voting"
    and "find (has_id sid) (players l) = Some p"
  shows "vote sid lobbyId target st lobbyId =
     Some (let l1 = l\<lparr>players := update_first (has_id sid) (\<lambda>p. p\<lparr>votedFor := Some target\<rparr>) (players l)\<rparr>
           in if list_all (\<lambda>p. truthy (votedFor p)) (players l1) then resolve_votes l1 else l1)"
  using assms by (simp add: vote_def Let_def)

lemma countable_truthy: "countable_vote v \<Longrightarrow> truthy v"
  by (auto simp: countable_vote_def truthy_def split: option.splits)

lemma vote_decides:
  assumes "st lobbyId = Some l" and "status l = Voting"
    and "find (has_id sid) (players l) = Some p"
    and "ps = update_first (has_id sid) (\<lambda>p. p\<lparr>votedFor := Some target\<rparr>) (players l)"
    and "list_all (\<lambda>p. countable_vote (votedFor p)) ps"
  shows "vote sid lobbyId target st lobbyId =
     Some (if accusation_succeeds ps
           then l\<lparr>players := ps, status := Witness_guessing\<rparr>
           else l\<lparr>players := ps, winner := Some Killer_wins, status := Game_over\<rparr>)"
proof -
  from assms(3) have "players l \<noteq> []" by auto
  then have ne: "ps \<noteq> []" using assms(4) by (cases "players l") (auto split: if_splits)
  have t: "list_all (\<lambda>p. truthy (votedFor p)) ps"
    using assms(5) by (auto simp: list_all_iff countable_truthy)
  have "resolve_votes (l\<lparr>players := ps\<rparr>) =
     (if accusation_succeeds ps then l\<lparr>players := ps, status := Witness_guessing\<rparr>
      else l\<lparr>players := ps, winner := Some Killer_wins, status := Game_over\<rparr>)"
    using resolve_votes_eq [of "l\<lparr>players := ps\<rparr>"] assms(5) ne by simp
  with t assms(4) show ?thesis
    by (simp add: vote_recorded [where st = st and lobbyId = lobbyId, OF assms(1-3)] Let_def)
qed

lemma demo_voting_facts:
  "demo_store (demo_voting va vb vc vd) ''L'' = Some (demo_voting va vb vc vd)"
  "status (demo_voting va vb vc vd) = Voting"
  "find (has_id ''D'') (players (demo_voting va vb vc vd)) = Some (demo_player ''D'' (Some Forensics) False vd)"
  "update_first (has_id ''D'') (\<lambda>p. p\<lparr>votedFor := Some t\<rparr>) (players (demo_voting va vb vc vd))
     = demo_ballots va vb vc (Some t)"
  "players (demo_voting va vb vc vd) = demo_ballots va vb vc vd"
  by (simp_all add: demo_store_def demo_voting_def demo_lobby_def demo_ballots_def demo_player_def
        has_id_def)

lemma demo_ballots_votes:
  "map votedFor (demo_ballots va vb vc vd) = [va, vb, vc, vd]"
  "find is_killer (demo_ballots va vb vc vd) = Some (demo_player ''A'' (Some Killer) True va)"
  by (simp_all add: demo_ballots_def demo_player_def is_killer_def)

lemma list_all_votes: "list_all (\<lambda>p. P (votedFor p)) ps \<longleftrightarrow> list_all P (map votedFor ps)"
  by (simp add: list_all_iff)

lemma votes_for_map: "votes_for ps t = length (filter (\<lambda>v. v = Some t) (map votedFor ps))"
  by (simp add: votes_for_def filter_map comp_def)

lemma targets_map: "targets ps = remdups (List.map_filter (\<lambda>v. v) (map votedFor ps))"
proof -
  have "List.map_filter votedFor ps = List.map_filter (\<lambda>v. v) (map votedFor ps)"
    by (induction ps) (simp_all split: option.splits)
  then show ?thesis by (simp add: targets_def)
qed

lemma demo_tops:
  "top_targets (demo_ballots (Some ''B'') (Some ''A'') (Some ''A'') (Some ''C'')) = [''A'']"
  "top_targets (demo_ballots (Some ''B'') (Some ''A'') (Some ''A'') (Some ''B'')) = [''A'', ''B'']"
  "top_targets (demo_ballots (Some ''X'') (Some ''X'') (Some ''A'') (Some ''X'')) = [''X'']"
  by (simp_all add: top_targets_def top_count_def targets_map votes_for_map demo_ballots_votes)

lemma demo_countable:
  "list_all (\<lambda>p. countable_vote (votedFor p))
     (demo_ballots (Some ''B'') (Some ''A'') (Some ''A'') (Some ''C''))"
  "list_all (\<lambda>p. countable_vote (votedFor p))
     (demo_ballots (Some ''B'') (Some ''A'') (Some ''A'') (Some ''B''))"
  "list_all (\<lambda>p. countable_vote (votedFor p))
     (demo_ballots (Some ''X'') (Some ''X'') (Some ''A'') (Some ''X''))"
  by (simp_all add: list_all_votes demo_ballots_votes countable_vote_def object_prototype_keys_def)

lemma demo_created_eq: "demo_created = (\<lambda>_. None)(''L'' \<mapsto> demo_in_lobby [demo_host])"
  by (simp add: demo_created_def create_lobby_def demo_host_def demo_in_lobby_def)

lemma demo_names:
  "unique_name [''Al''] ''Bo'' ''Bo'' (Suc 0) = ''Bo''"
  "unique_name [''Al'', ''Bo''] ''Cy'' ''Cy'' (Suc 0) = ''Cy''"
  by (simp_all add: unique_name.simps [of _ _ _ "Suc 0"])

lemma new_player_sel:
  "pid (new_player s n r k) = s" "name (new_player s n r k) = n"
  "role (new_player s n r k) = None" "attributes (new_player s n r k) = generateAttributes r"
  "isHost (new_player s n r k) = False" "votedFor (new_player s n r k) = None"
  by (simp_all add: new_player_def)

lemma demo_two_eq:
  "demo_two = (\<lambda>_. None)(''L'' \<mapsto> demo_in_lobby [demo_host, new_player ''B'' ''Bo'' (\<lambda>_. 0) 1])"
  by (simp add: demo_two_def demo_created_eq join_lobby_def demo_in_lobby_def Let_def)
     (simp add: demo_host_def demo_names)

lemma demo_three_eq:
  "demo_three = (\<lambda>_. None)(''L'' \<mapsto> demo_in_lobby [demo_host, new_player ''B'' ''Bo'' (\<lambda>_. 0) 1,
         new_player ''C'' ''Cy'' (\<lambda>_. 1) 2])"
  by (simp add: demo_three_def demo_two_eq join_lobby_def demo_in_lobby_def Let_def)
     (simp add: demo_host_def new_player_sel demo_names numeral_2_eq_2)

lemma demo_roles: "assignRoles (\<lambda>_. 0) [p1, p2, p3]
   = [p1\<lparr>role := Some Witness\<rparr>, p2\<lparr>role := Some Investigator\<rparr>, p3\<lparr>role := Some Killer\<rparr>]"
  by (simp add: assignRoles_def role_pool_def pad_roles.simps swap_def rand_index_def shift_def)

lemma demo_started_eq:
  "demo_started ''L'' =
     Some \<lparr> lid = ''L'', status = Playing,
            players = [demo_host\<lparr>role := Some Witness\<rparr>,
                       (new_player ''B'' ''Bo'' (\<lambda>_. 0) 1)\<lparr>role := Some Investigator\<rparr>,
                       (new_player ''C'' ''Cy'' (\<lambda>_. 1) 2)\<lparr>role := Some Killer\<rparr>],
            clues = [], tasks = generateTasks (\<lambda>_. 0) dec,
            startTime = Some 0, endTime = Some 300000, winner = None \<rparr>"
  by (simp add: demo_started_def demo_three_eq start_game_def demo_in_lobby_def has_id_def
        demo_roles Let_def shift_def)
     (simp add: demo_host_def)

lemma demo_started_lookup: "demo_started ''L'' = Some demo_started_lobby"
  by (simp add: demo_started_eq demo_started_lobby_def)

lemma demo_killer_left_lookup:
  "demo_killer_left ''L'' =
     Some (demo_started_lobby\<lparr>players := [demo_host\<lparr>role := Some Witness\<rparr>,
                  (new_player ''B'' ''Bo'' (\<lambda>_. 0) 1)\<lparr>role := Some Investigator\<rparr>]\<rparr>)"
  by (simp add: demo_killer_left_def leave_lobby_def demo_started_lookup)
     (simp add: demo_started_lobby_def has_id_def new_player_sel demo_host_def splice1_def)

lemma demo_dec: "dec 0 = ''0''" "dec (Suc 0) = ''1''" "dec 4 = ''4''"
  by code_simp+

lemma demo_first_task:
  "find (\<lambda>t. tid t = ''0'') (generateTasks r dec) = Some (hd (generateTasks r dec))"
  "\<not> completed (hd (generateTasks r dec))"
  by (simp_all add: generateTasks_def upt_conv_Cons demo_dec)

lemma demo_first_clue: "attribute_clue (generateAttributes (\<lambda>_. 0)) (\<lambda>_. 0) = ''Southpaw''"
  by (simp add: attribute_clue_def ATTRIBUTE_KEYS_def rand_index_def attribute_value_def
        generateAttributes_def HANDEDNESS_def CLUE_MAP_def)

lemma demo_killer_texts:
  "possible_clues (generateAttributes (\<lambda>_. Suc 0))
     = [''Standard'', ''Dexterous'', ''Common'', ''Earth'', ''Chestnut'', ''Chocolate'',
        ''Athletic'', ''Laces'', ''Track'', ''Lines'', ''Zebra'', ''Parallel'',
        ''Stethoscope'', ''Medicine'', ''Hospital'', ''Short'', ''Headwear'', ''Shade'', ''Cap'']"
  by (simp add: possible_clues_def attribute_texts_def ATTRIBUTE_KEYS_def attribute_value_def
        generateAttributes_def rand_index_def HANDEDNESS_def HAIR_COLORS_def SHOE_TYPES_def
        TSHIRT_DESIGNS_def OCCUPATIONS_def ACCESSORIES_def CLUE_MAP_def getHeightClue_def
        parseInt_def parse_digits_def is_space_def is_digit_def digit_value_def
        demo_dec Let_def)

lemma demo_reachable: "reachable demo_started" "reachable demo_killer_left"
  unfolding demo_killer_left_def demo_started_def demo_three_def demo_two_def demo_created_def
  by (intro reachable_step reachable_init)+

lemma demo_started_facts:
  "status demo_started_lobby = Playing"
  "clues demo_started_lobby = []"
  "map pid (players demo_started_lobby) = [''A'', ''B'', ''C'']"
  "map role (players demo_started_lobby) = [Some Witness, Some Investigator, Some Killer]"
  "find (\<lambda>t. tid t = ''0'') (tasks demo_started_lobby) = Some (hd (generateTasks (\<lambda>_. 0) dec))"
  "\<not> completed (hd (generateTasks (\<lambda>_. 0) dec))"
  by (simp_all add: demo_started_lobby_def demo_first_task new_player_sel demo_host_def)

lemma demo_survivors_facts:
  "demo_killer_left ''L'' = Some demo_survivors"
  "status demo_survivors = Playing"
  "find (\<lambda>t. tid t = ''0'') (tasks demo_survivors) = Some (hd (generateTasks (\<lambda>_. 0) dec))"
  "find (has_id ''A'') (players demo_survivors) = Some (demo_host\<lparr>role := Some Witness\<rparr>)"
  "clues demo_survivors = []"
  "filter is_killer (players demo_survivors) = []"
  by (simp_all add: demo_survivors_def demo_killer_left_lookup demo_started_facts)
     (simp_all add: demo_started_lobby_def demo_first_task has_id_def demo_host_def is_killer_def
        new_player_sel)

lemma demo_voting_open_lookup: "demo_voting_open ''L'' = Some (demo_poll None None None)"
  by (simp add: demo_voting_open_def phase_timeout_def start_voting_def demo_started_lookup
        demo_started_facts)
     (simp add: demo_started_lobby_def demo_poll_def has_id_def demo_host_def new_player_def)

lemma demo_poll_facts:
  "status (demo_poll va vb vc) = Voting"
  "map pid (players (demo_poll va vb vc)) = [''A'', ''B'', ''C'']"
  "map votedFor (players (demo_poll va vb vc)) = [va, vb, vc]"
  "map role (players (demo_poll va vb vc)) = [Some Witness, Some Investigator, Some Killer]"
  by (simp_all add: demo_poll_def demo_host_def new_player_sel)

lemma demo_poll_vote:
  "update_first (has_id ''A'') (\<lambda>p. p\<lparr>votedFor := Some t\<rparr>) (players (demo_poll va vb vc))
     = players (demo_poll (Some t) vb vc)"
  "update_first (has_id ''B'') (\<lambda>p. p\<lparr>votedFor := Some t\<rparr>) (players (demo_poll va vb vc))
     = players (demo_poll va (Some t) vc)"
  "update_first (has_id ''C'') (\<lambda>p. p\<lparr>votedFor := Some t\<rparr>) (players (demo_poll va vb vc))
     = players (demo_poll va vb (Some t))"
  "(demo_poll va vb vc)\<lparr>players := players (demo_poll va' vb' vc')\<rparr> = demo_poll va' vb' vc'"
  "find (has_id ''A'') (players (demo_poll va vb vc)) \<noteq> None"
  "find (has_id ''B'') (players (demo_poll va vb vc)) \<noteq> None"
  "find (has_id ''C'') (players (demo_poll va vb vc)) \<noteq> None"
  by (simp_all add: demo_poll_def has_id_def demo_host_def new_player_sel)

lemma vote_pending:
  assumes "st lobbyId = Some l" and "status l = Voting"
    and "find (has_id sid) (players l) \<noteq> None"
    and "None \<in> set (map votedFor (update_first (has_id sid) (\<lambda>p. p\<lparr>votedFor := Some t\<rparr>) (players l)))
         \<or> Some [] \<in> set (map votedFor (update_first (has_id sid) (\<lambda>p. p\<lparr>votedFor := Some t\<rparr>) (players l)))"
  shows "vote sid lobbyId t st
     = st(lobbyId \<mapsto> l\<lparr>players := update_first (has_id sid) (\<lambda>p. p\<lparr>votedFor := Some t\<rparr>) (players l)\<rparr>)"
proof -
  let ?ps = "update_first (has_id sid) (\<lambda>p. p\<lparr>votedFor := Some t\<rparr>) (players l)"
  from assms(4) obtain p where p: "p \<in> set ?ps" "votedFor p = None \<or> votedFor p = Some []"
    by (auto simp: image_iff)
  then have "\<not> truthy (votedFor p)"
    by (auto simp: truthy_def)
  with p(1) have "\<not> list_all (\<lambda>p. truthy (votedFor p)) ?ps"
    by (auto simp: list_all_iff)
  with assms(1-3) show ?thesis
    by (auto simp: vote_def Let_def)
qed

lemma demo_voted_lookup: "demo_voted a b ''L'' = Some (demo_poll (Some a) (Some b) None)"
proof -
  have 1: "vote ''A'' ''L'' a demo_voting_open = demo_voting_open(''L'' \<mapsto> demo_poll (Some a) None None)"
    by (subst vote_pending [where st = demo_voting_open and lobbyId = "''L''",
          OF demo_voting_open_lookup])
       (simp_all add: demo_poll_facts demo_poll_vote)
  have 2: "vote ''B'' ''L'' b (demo_voting_open(''L'' \<mapsto> demo_poll (Some a) None None))
      = (demo_voting_open(''L'' \<mapsto> demo_poll (Some a) None None))
          (''L'' \<mapsto> demo_poll (Some a) (Some b) None)"
    by (subst vote_pending [where l = "demo_poll (Some a) None None"])
       (simp_all add: demo_poll_facts demo_poll_vote)
  show ?thesis
    by (simp add: demo_voted_def 1 2)
qed

lemma demo_voted_reachable: "reachable (demo_voted a b)"
  unfolding demo_voted_def demo_voting_open_def
  by (intro reachable_step demo_reachable)

lemma tally_map:
  "tally ps = fold (\<lambda>v votes. if truthy v then record_vote votes (the v) else votes)
                (map votedFor ps) []"
  by (simp add: tally_def fold_map comp_def)

lemma demo_poll_killer:
  "map_option pid (find is_killer (players (demo_poll va vb vc))) = Some ''C''"
  by (simp add: demo_poll_def is_killer_def demo_host_def new_player_sel)

lemma demo_poll_inherited:
  "resolve_votes (demo_poll (Some ''C'') (Some ''constructor'') (Some ''constructor''))
     = (demo_poll (Some ''C'') (Some ''constructor'') (Some ''constructor''))\<lparr>status := Witness_guessing\<rparr>"
  "resolve_votes (demo_poll (Some ''C'') (Some ''toString'') (Some ''toString''))
     = (demo_poll (Some ''C'') (Some ''toString'') (Some ''toString''))\<lparr>status := Witness_guessing\<rparr>"
  by (simp_all add: resolve_votes_def tally_map demo_poll_facts demo_poll_killer truthy_def
        record_vote_def object_prototype_keys_def object_entries_def is_array_index_def
        is_digit_def)

lemma vote_resolved:
  assumes "st lobbyId = Some l" and "status l = Voting"
    and "find (has_id sid) (players l) \<noteq> None"
    and "list_all (\<lambda>p. truthy (votedFor p))
           (update_first (has_id sid) (\<lambda>p. p\<lparr>votedFor := Some t\<rparr>) (players l))"
  shows "vote sid lobbyId t st
     = st(lobbyId \<mapsto> resolve_votes
           (l\<lparr>players := update_first (has_id sid) (\<lambda>p. p\<lparr>votedFor := Some t\<rparr>) (players l)\<rparr>))"
  using assms by (auto simp: vote_def Let_def)

lemma demo_last_vote:
  "vote ''C'' ''L'' [] (demo_voted a b) ''L'' = Some (demo_poll (Some a) (Some b) (Some []))"
  "vote ''C'' ''L'' ''constructor'' (demo_voted ''C'' ''constructor'') ''L''
     = Some ((demo_poll (Some ''C'') (Some ''constructor'') (Some ''constructor''))
              \<lparr>status := Witness_guessing\<rparr>)"
  "vote ''C'' ''L'' ''toString'' (demo_voted ''C'' ''toString'') ''L''
     = Some ((demo_poll (Some ''C'') (Some ''toString'') (Some ''toString''))
              \<lparr>status := Witness_guessing\<rparr>)"
proof -
  show "vote ''C'' ''L'' [] (demo_voted a b) ''L'' = Some (demo_poll (Some a) (Some b) (Some []))"
    by (subst vote_pending [where st = "demo_voted a b" and lobbyId = "''L''",
          OF demo_voted_lookup])
       (simp_all add: demo_poll_facts demo_poll_vote)
  show "vote ''C'' ''L'' ''constructor'' (demo_voted ''C'' ''constructor'') ''L''
     = Some ((demo_poll (Some ''C'') (Some ''constructor'') (Some ''constructor''))
              \<lparr>status := Witness_guessing\<rparr>)"
    by (subst vote_resolved [where st = "demo_voted ''C'' ''constructor''" and lobbyId = "''L''",
          OF demo_voted_lookup])
       (simp_all add: demo_poll_facts demo_poll_vote list_all_votes truthy_def
          demo_poll_inherited)
  show "vote ''C'' ''L'' ''toString'' (demo_voted ''C'' ''toString'') ''L''
     = Some ((demo_poll (Some ''C'') (Some ''toString'') (Some ''toString''))
              \<lparr>status := Witness_guessing\<rparr>)"
    by (subst vote_resolved [where st = "demo_voted ''C'' ''toString''" and lobbyId = "''L''",
          OF demo_voted_lookup])
       (simp_all add: demo_poll_facts demo_poll_vote list_all_votes truthy_def
          demo_poll_inherited)
qed

lemma demo_poll_tops:
  "top_targets (players (demo_poll (Some ''C'') (Some ''constructor'') (Some ''constructor'')))
     = [''constructor'']"
  "top_targets (players (demo_poll (Some ''C'') (Some ''toString'') (Some ''toString'')))
     = [''toString'']"
  "top_targets (players (demo_poll (Some []) (Some []) (Some []))) = [[]]"
  by (simp_all add: top_targets_def top_count_def targets_map votes_for_map demo_poll_facts)

section \<open>The steal ability (server.ts, lines 362-397)\<close>

text \<open>
  Claim C5. A \<open>steal_clue\<close> that fails a precondition (no such lobby, or its status is not
  playing; the caller is no player of the lobby or is not the killer; the caller has
  already stolen; the target is no player of the lobby) passes an error to the caller's
  callback and leaves the whole registry as it was. After a steal that succeeded, every
  further steal by the same caller in that lobby is refused with
  "Already used steal ability", again with no change of state.
\<close>

theorem steal_clue_rejected:
  "(st lobbyId = None
    \<or> (\<exists>l. st lobbyId = Some l \<and>
          (status l \<noteq> Playing
           \<or> find (has_id sid) (players l) = None
           \<or> (\<exists>thief. find (has_id sid) (players l) = Some thief
                 \<and> (role thief \<noteq> Some Killer \<or> hasStolenClue thief))
           \<or> targetPlayerId \<notin> pid ` set (players l)))
    \<longrightarrow> fst (steal_clue sid lobbyId targetPlayerId rnd uuid st) = st
        \<and> snd (steal_clue sid lobbyId targetPlayerId rnd uuid st)
            \<in> Error ` {''Game not active'', ''Only the killer can do this'',
                         ''Already used steal ability'', ''Target not found''})
   \<and> (steal_clue sid lobbyId targetPlayerId rnd uuid st = (st', Message m)
      \<longrightarrow> steal_clue sid lobbyId target2 rnd2 uuid2 st'
            = (st', Error ''Already used steal ability''))"
proof (intro conjI impI)
  assume a: "st lobbyId = None
    \<or> (\<exists>l. st lobbyId = Some l \<and>
          (status l \<noteq> Playing
           \<or> find (has_id sid) (players l) = None
           \<or> (\<exists>thief. find (has_id sid) (players l) = Some thief
                 \<and> (role thief \<noteq> Some Killer \<or> hasStolenClue thief))
           \<or> targetPlayerId \<notin> pid ` set (players l)))"
  then show "fst (steal_clue sid lobbyId targetPlayerId rnd uuid st) = st"
    by (auto simp: steal_clue_def find_has_id_None [symmetric] split: option.splits)
  from a show "snd (steal_clue sid lobbyId targetPlayerId rnd uuid st)
            \<in> Error ` {''Game not active'', ''Only the killer can do this'',
                         ''Already used steal ability'', ''Target not found''}"
    by (auto simp: steal_clue_def find_has_id_None [symmetric] split: option.splits)
next
  assume s: "steal_clue sid lobbyId targetPlayerId rnd uuid st = (st', Message m)"
  then obtain l thief where l: "st lobbyId = Some l" "status l = Playing"
    and t: "find (has_id sid) (players l) = Some thief" "role thief = Some Killer"
    by (auto simp: steal_clue_def split: option.splits if_splits)
  let ?marked = "update_first (has_id sid) (\<lambda>p. p\<lparr>hasStolenClue := True\<rparr>) (players l)"
  from s l t obtain l' where l': "st' = st(lobbyId \<mapsto> l')" "status l' = Playing"
      "players l' = ?marked"
    by (auto simp: steal_clue_def Let_def split: option.splits if_splits)
  have "has_id sid thief" using t(1) by (auto simp: find_Some_iff)
  then have "find (has_id sid) ?marked = Some (thief\<lparr>hasStolenClue := True\<rparr>)"
    using t(1) by (intro find_update_first) (simp_all add: has_id_def)
  with l' t show "steal_clue sid lobbyId target2 rnd2 uuid2 st'
            = (st', Error ''Already used steal ability'')"
    by (simp add: steal_clue_def)
qed


lemma demo_steal:
  "steal_clue ''A'' ''L'' ''B'' (\<lambda>_. 0) (\<lambda>_. ''u'') demo_playing
     = (fst (steal_clue ''A'' ''L'' ''B'' (\<lambda>_. 0) (\<lambda>_. ''u'') demo_playing),
        Message ''Fake clue planted on B!'')"
  by (simp add: steal_clue_def demo_defs has_id_def stealable_def generateClue_def
        clue_target_def is_killer_def nth_opt_def rand_index_def)

theorem steal_clue_rejected_witness:
  "fst (steal_clue ''B'' ''L'' ''C'' (\<lambda>_. 0) (\<lambda>_. ''u'') demo_playing) = demo_playing
   \<and> snd (steal_clue ''B'' ''L'' ''C'' (\<lambda>_. 0) (\<lambda>_. ''u'') demo_playing)
        \<in> Error ` {''Game not active'', ''Only the killer can do this'',
                     ''Already used steal ability'', ''Target not found''}
   \<and> steal_clue ''A'' ''L'' ''C'' (\<lambda>_. 1) (\<lambda>_. ''v'')
         (fst (steal_clue ''A'' ''L'' ''B'' (\<lambda>_. 0) (\<lambda>_. ''u'') demo_playing))
       = (fst (steal_clue ''A'' ''L'' ''B'' (\<lambda>_. 0) (\<lambda>_. ''u'') demo_playing),
          Error ''Already used steal ability'')"
proof -
  have refused: "\<exists>l. demo_playing ''L'' = Some l \<and>
          (status l \<noteq> Playing
           \<or> find (has_id ''B'') (players l) = None
           \<or> (\<exists>thief. find (has_id ''B'') (players l) = Some thief
                 \<and> (role thief \<noteq> Some Killer \<or> hasStolenClue thief))
           \<or> ''C'' \<notin> pid ` set (players l))"
    by (simp add: demo_defs has_id_def)
  show ?thesis
    using refused demo_steal
      steal_clue_rejected [of demo_playing "''L''" "''B''" "''C''" "\<lambda>_. 0" "\<lambda>_. ''u''"]
      steal_clue_rejected [of demo_playing "''L''" "''A''" "''B''" "\<lambda>_. 0" "\<lambda>_. ''u''"
        "fst (steal_clue ''A'' ''L'' ''B'' (\<lambda>_. 0) (\<lambda>_. ''u'') demo_playing)"
        "''Fake clue planted on B!''" "''C''" "\<lambda>_. 1" "\<lambda>_. ''v''"]
    by blast
qed

text \<open>
  Claim C4. When the lobby is playing, the caller is the killer and has not stolen yet,
  and the target is a player: if some clue is attributed to the target and not tampered,
  one such clue (at some index \<open>i\<close>) has its flag set and the clue list is otherwise the
  same, with nothing appended; otherwise exactly one clue is appended, tampered and
  attributed to the target. In both cases the caller's entry has \<open>hasStolenClue\<close> set,
  nothing else of the lobby changes, and the callback receives a message.
\<close>

theorem steal_clue_succeeds:
  assumes "st lobbyId = Some l" and "status l = Playing"
    and "find (has_id sid) (players l) = Some thief"
    and "role thief = Some Killer" and "\<not> hasStolenClue thief"
    and "find (has_id targetPlayerId) (players l) = Some target"
  shows "\<exists>l' m. steal_clue sid lobbyId targetPlayerId rnd uuid st = (st(lobbyId \<mapsto> l'), Message m)
     \<and> l' = l\<lparr>clues := clues l', players := players l'\<rparr>
     \<and> players l' = update_first (has_id sid) (\<lambda>p. p\<lparr>hasStolenClue := True\<rparr>) (players l)
     \<and> find (has_id sid) (players l') = Some (thief\<lparr>hasStolenClue := True\<rparr>)
     \<and> (if \<exists>c \<in> set (clues l). foundBy c = targetPlayerId \<and> \<not> isTampered c
        then \<exists>i < length (clues l).
               foundBy (clues l ! i) = targetPlayerId \<and> \<not> isTampered (clues l ! i)
               \<and> clues l' = (clues l)[i := (clues l ! i)\<lparr>isTampered := True\<rparr>]
        else \<exists>c. clues l' = clues l @ [c] \<and> isTampered c \<and> foundBy c = targetPlayerId)"
proof -
  let ?marked = "update_first (has_id sid) (\<lambda>p. p\<lparr>hasStolenClue := True\<rparr>) (players l)"
  let ?P = "stealable targetPlayerId"
  have "has_id sid thief" using assms(3) by (auto simp: find_Some_iff)
  then have found: "find (has_id sid) ?marked = Some (thief\<lparr>hasStolenClue := True\<rparr>)"
    using assms(3) by (intro find_update_first) (simp_all add: has_id_def)
  have ex_iff: "(\<exists>c \<in> set (clues l). foundBy c = targetPlayerId \<and> \<not> isTampered c)
      \<longleftrightarrow> filter ?P (clues l) \<noteq> []"
    by (auto simp: filter_empty_conv stealable_def)
  show ?thesis
  proof (cases "filter ?P (clues l) = []")
    case True
    from assms(3) have "players l \<noteq> []" by auto
    then obtain fake where fake: "generateClue l True rnd = Some fake"
      using generateClue_Some by blast
    let ?c = "\<lparr> cid = uuid 0, clue_text = fake, isTampered = True, foundBy = targetPlayerId \<rparr>"
    let ?l' = "l\<lparr>clues := clues l @ [?c], players := ?marked\<rparr>"
    have "steal_clue sid lobbyId targetPlayerId rnd uuid st
        = (st(lobbyId \<mapsto> ?l'), Message (''Fake clue planted on '' @ name target @ ''!''))"
      using assms True fake by (simp add: steal_clue_def)
    moreover have "\<not> (\<exists>c \<in> set (clues l). foundBy c = targetPlayerId \<and> \<not> isTampered c)"
      using True ex_iff by simp
    ultimately show ?thesis
      using found
      by (intro exI [of _ ?l'] exI [of _ "''Fake clue planted on '' @ name target @ ''!''"])
         auto
  next
    case False
    then have "rand_index (length (filter ?P (clues l))) (rnd 0) < length (filter ?P (clues l))"
      by (intro rand_index_less) simp
    from update_kth_match_nth [OF this, of "\<lambda>c. c\<lparr>isTampered := True\<rparr>"]
    obtain i where i: "i < length (clues l)" "?P (clues l ! i)"
      "update_kth_match ?P (rand_index (length (filter ?P (clues l))) (rnd 0))
         (\<lambda>c. c\<lparr>isTampered := True\<rparr>) (clues l) = (clues l)[i := (clues l ! i)\<lparr>isTampered := True\<rparr>]"
      by blast
    let ?l' = "l\<lparr>clues := (clues l)[i := (clues l ! i)\<lparr>isTampered := True\<rparr>], players := ?marked\<rparr>"
    have "steal_clue sid lobbyId targetPlayerId rnd uuid st
        = (st(lobbyId \<mapsto> ?l'), Message (''Clue from '' @ name target @ '' tampered!''))"
      using assms False i(3) by (simp add: steal_clue_def Let_def)
    moreover have "\<exists>c \<in> set (clues l). foundBy c = targetPlayerId \<and> \<not> isTampered c"
      using False ex_iff by simp
    moreover have "\<exists>j < length (clues l).
               foundBy (clues l ! j) = targetPlayerId \<and> \<not> isTampered (clues l ! j)
               \<and> (clues l)[i := (clues l ! i)\<lparr>isTampered := True\<rparr>]
                   = (clues l)[j := (clues l ! j)\<lparr>isTampered := True\<rparr>]"
      using i(1,2) by (intro exI [of _ i]) (simp add: stealable_def)
    ultimately show ?thesis
      using found
      by (intro exI [of _ ?l'] exI [of _ "''Clue from '' @ name target @ '' tampered!''"])
         auto
  qed
qed


theorem steal_clue_succeeds_witness:
  "\<exists>l' m. steal_clue ''A'' ''L'' ''B'' (\<lambda>_. 0) (\<lambda>_. ''u'') demo_playing
              = (demo_playing(''L'' \<mapsto> l'), Message m)
     \<and> l' = demo_playing_lobby\<lparr>clues := clues l', players := players l'\<rparr>
     \<and> players l' = update_first (has_id ''A'') (\<lambda>p. p\<lparr>hasStolenClue := True\<rparr>)
                      (players demo_playing_lobby)
     \<and> find (has_id ''A'') (players l')
         = Some ((demo_player ''A'' (Some Killer) True None)\<lparr>hasStolenClue := True\<rparr>)
     \<and> (if \<exists>c \<in> set (clues demo_playing_lobby). foundBy c = ''B'' \<and> \<not> isTampered c
        then \<exists>i < length (clues demo_playing_lobby).
               foundBy (clues demo_playing_lobby ! i) = ''B''
               \<and> \<not> isTampered (clues demo_playing_lobby ! i)
               \<and> clues l' = (clues demo_playing_lobby)
                     [i := (clues demo_playing_lobby ! i)\<lparr>isTampered := True\<rparr>]
        else \<exists>c. clues l' = clues demo_playing_lobby @ [c] \<and> isTampered c \<and> foundBy c = ''B'')"
proof -
  have 1: "demo_playing ''L'' = Some demo_playing_lobby"
    by (simp add: demo_playing_def demo_store_def)
  have 2: "status demo_playing_lobby = Playing"
    by (simp add: demo_playing_lobby_def demo_lobby_def)
  have 3: "find (has_id ''A'') (players demo_playing_lobby)
             = Some (demo_player ''A'' (Some Killer) True None)"
    by (simp add: demo_playing_lobby_def demo_lobby_def demo_player_def has_id_def)
  have 4: "role (demo_player ''A'' (Some Killer) True None) = Some Killer"
    by (simp add: demo_player_def)
  have 5: "\<not> hasStolenClue (demo_player ''A'' (Some Killer) True None)"
    by (simp add: demo_player_def)
  have 6: "find (has_id ''B'') (players demo_playing_lobby)
             = Some (demo_player ''B'' (Some Witness) False None)"
    by (simp add: demo_playing_lobby_def demo_lobby_def demo_player_def has_id_def)
  show ?thesis
    by (rule steal_clue_succeeds [where st = demo_playing and lobbyId = "''L''", OF 1 2 3 4 5 6])
qed

section \<open>Task completion (server.ts, lines 326-348)\<close>

text \<open>
  Claim C6 says that during playing, on a task not yet completed, the flag is set and
  exactly one clue is appended, always together. The handler sets the flag first and
  looks the caller up afterwards, so the two come apart when the caller is no player of
  the lobby (a connection that never joined, or a player who has left the game). The
  theorem runs the handler in the started game for such a caller \<open>Z\<close> on the open task
  \<open>0\<close>: afterwards the task is completed and the lobby still has no clue.
\<close>

theorem task_flipped_without_clue:
  "reachable demo_started
   \<and> demo_started ''L'' = Some demo_started_lobby
   \<and> status demo_started_lobby = Playing
   \<and> find (\<lambda>t. tid t = ''0'') (tasks demo_started_lobby) = Some (hd (generateTasks (\<lambda>_. 0) dec))
   \<and> completed (hd (generateTasks (\<lambda>_. 0) dec)) = False
   \<and> find (has_id ''Z'') (players demo_started_lobby) = None
   \<and> task_completed ''Z'' ''L'' ''0'' (\<lambda>_. 0) (\<lambda>_. ''c1'') demo_started ''L''
       = Some (demo_started_lobby
                \<lparr>tasks := update_first (\<lambda>t. tid t = ''0'') (\<lambda>t. t\<lparr>completed := True\<rparr>)
                            (tasks demo_started_lobby)\<rparr>)
   \<and> find (\<lambda>t. tid t = ''0'')
         (update_first (\<lambda>t. tid t = ''0'') (\<lambda>t. t\<lparr>completed := True\<rparr>) (tasks demo_started_lobby))
       = Some ((hd (generateTasks (\<lambda>_. 0) dec))\<lparr>completed := True\<rparr>)
   \<and> clues (demo_started_lobby
                \<lparr>tasks := update_first (\<lambda>t. tid t = ''0'') (\<lambda>t. t\<lparr>completed := True\<rparr>)
                            (tasks demo_started_lobby)\<rparr>) = []"
proof -
  have z: "find (has_id ''Z'') (players demo_started_lobby) = None"
    by (simp add: demo_started_lobby_def has_id_def new_player_sel demo_host_def)
  then have "task_completed ''Z'' ''L'' ''0'' (\<lambda>_. 0) (\<lambda>_. ''c1'') demo_started ''L''
       = Some (demo_started_lobby
                \<lparr>tasks := update_first (\<lambda>t. tid t = ''0'') (\<lambda>t. t\<lparr>completed := True\<rparr>)
                            (tasks demo_started_lobby)\<rparr>)"
    by (simp add: task_completed_def demo_started_lookup demo_started_facts)
  with z show ?thesis
    by (simp add: demo_reachable demo_started_lookup demo_started_facts
          find_flipped [OF demo_started_facts(5)])
qed

text \<open>
  Claim C3, for a completion by a player of the lobby, on a task not yet completed,
  during playing. Exactly one clue is appended, attributed to the caller, and it is
  tampered exactly when the caller is the killer. When the caller is not the killer and
  a killer is among the players of the lobby, the text describes the killer (the first
  player whose role is killer). When the caller is the killer and some player of the
  lobby is not a killer, the text describes such a player.
\<close>

theorem task_clue_truthfulness:
  assumes "st lobbyId = Some l" and "status l = Playing"
    and "find (\<lambda>t. tid t = taskId) (tasks l) = Some task" and "\<not> completed task"
    and "find (has_id sid) (players l) = Some p"
  shows "\<exists>l' c. task_completed sid lobbyId taskId rnd uuid st lobbyId = Some l'
     \<and> clues l' = clues l @ [c]
     \<and> foundBy c = pid p
     \<and> isTampered c = (role p = Some Killer)
     \<and> (role p \<noteq> Some Killer \<longrightarrow>
          (\<forall>k. find is_killer (players l) = Some k \<longrightarrow> describes k (clue_text c)))
     \<and> (role p = Some Killer \<longrightarrow> (\<exists>q \<in> set (players l). \<not> is_killer q) \<longrightarrow>
          (\<exists>q \<in> set (players l). \<not> is_killer q \<and> describes q (clue_text c)))"
proof -
  let ?l1 = "l\<lparr>tasks := update_first (\<lambda>t. tid t = taskId) (\<lambda>t. t\<lparr>completed := True\<rparr>) (tasks l)\<rparr>"
  let ?b = "role p = Some Killer"
  from task_completed_by_player [where st = st and lobbyId = lobbyId, OF assms, of rnd uuid]
  obtain target where target: "fst (clue_target ?l1 ?b rnd) = Some target"
    and res: "task_completed sid lobbyId taskId rnd uuid st lobbyId
      = Some (?l1\<lparr>clues := clues l @
                 [\<lparr> cid = uuid 0,
                    clue_text = attribute_clue (attributes target) (snd (clue_target ?l1 ?b rnd)),
                    isTampered = ?b, foundBy = pid p \<rparr>]\<rparr>)"
    by auto
  let ?c = "\<lparr> cid = uuid 0,
              clue_text = attribute_clue (attributes target) (snd (clue_target ?l1 ?b rnd)),
              isTampered = ?b, foundBy = pid p \<rparr>"
  have d: "describes target (clue_text ?c)"
    by (simp add: describes_def attribute_clue_describes)
  have truthful: "describes k (clue_text ?c)"
    if "\<not> ?b" and "find is_killer (players l) = Some k" for k
  proof -
    have "fst (clue_target ?l1 False rnd) = Some k"
      using that(2) by (intro clue_target_truthful) simp
    with target that(1) have "target = k" by simp
    with d show ?thesis by simp
  qed
  have decoy: "\<exists>q \<in> set (players l). \<not> is_killer q \<and> describes q (clue_text ?c)"
    if "?b" and "\<exists>q \<in> set (players l). \<not> is_killer q"
  proof -
    from that(2) have "\<exists>q \<in> set (players ?l1). \<not> is_killer q" by simp
    from clue_target_decoy [OF this, of rnd]
    obtain q where "q \<in> set (players l)" "\<not> is_killer q" "fst (clue_target ?l1 True rnd) = Some q"
      by auto
    with target that(1) have "target = q" by simp
    with d \<open>q \<in> set (players l)\<close> \<open>\<not> is_killer q\<close> show ?thesis by blast
  qed
  show ?thesis
    using res truthful decoy
    by (intro exI [of _ "?l1\<lparr>clues := clues l @ [?c]\<rparr>"] exI [of _ ?c]) auto
qed

theorem task_clue_truthfulness_witness:
  "(\<exists>l' c. task_completed ''B'' ''L'' ''t1'' (\<lambda>_. 0) (\<lambda>_. ''u'') demo_playing ''L'' = Some l'
      \<and> clues l' = clues demo_playing_lobby @ [c] \<and> \<not> isTampered c
      \<and> describes (demo_player ''A'' (Some Killer) True None) (clue_text c))
   \<and> (\<exists>l' c q. task_completed ''A'' ''L'' ''t1'' (\<lambda>_. 0) (\<lambda>_. ''u'') demo_playing ''L'' = Some l'
      \<and> clues l' = clues demo_playing_lobby @ [c] \<and> isTampered c
      \<and> q \<in> set (players demo_playing_lobby) \<and> \<not> is_killer q \<and> describes q (clue_text c))"
proof
  have "role (demo_player ''B'' (Some Witness) False None) \<noteq> Some Killer"
    by (simp add: demo_player_def)
  then show "\<exists>l' c. task_completed ''B'' ''L'' ''t1'' (\<lambda>_. 0) (\<lambda>_. ''u'') demo_playing ''L'' = Some l'
      \<and> clues l' = clues demo_playing_lobby @ [c] \<and> \<not> isTampered c
      \<and> describes (demo_player ''A'' (Some Killer) True None) (clue_text c)"
    using task_clue_truthfulness [where st = demo_playing and lobbyId = "''L''",
        OF demo_playing_lookup demo_playing_status demo_playing_task demo_playing_players(2),
        of "\<lambda>_. 0" "\<lambda>_. ''u''"]
      demo_playing_players(3)
    by auto
next
  have "role (demo_player ''A'' (Some Killer) True None) = Some Killer"
    by (simp add: demo_player_def)
  moreover have "\<exists>q \<in> set (players demo_playing_lobby). \<not> is_killer q"
    by (simp add: demo_playing_lobby_def demo_lobby_def demo_player_def is_killer_def)
  ultimately show "\<exists>l' c q. task_completed ''A'' ''L'' ''t1'' (\<lambda>_. 0) (\<lambda>_. ''u'') demo_playing ''L'' = Some l'
      \<and> clues l' = clues demo_playing_lobby @ [c] \<and> isTampered c
      \<and> q \<in> set (players demo_playing_lobby) \<and> \<not> is_killer q \<and> describes q (clue_text c)"
    using task_clue_truthfulness [where st = demo_playing and lobbyId = "''L''",
        OF demo_playing_lookup demo_playing_status demo_playing_task demo_playing_players(1),
        of "\<lambda>_. 0" "\<lambda>_. ''u''"]
    by auto
qed

text \<open>
  The conditions on who is still in the lobby are needed. \<open>leave_lobby\<close> removes a
  player in every phase; once the killer \<open>C\<close> has left the running game, no player of
  the lobby is a killer, and the clue that the witness \<open>A\<close> finds is marked as not
  tampered and is made from the attributes of the first player of the list, which is
  \<open>A\<close>: its text describes no attribute of \<open>C\<close>.
\<close>

theorem task_clue_truthfulness_counterexample:
  "reachable demo_killer_left
   \<and> demo_started ''L'' = Some demo_started_lobby
   \<and> map role (players demo_started_lobby) = [Some Witness, Some Investigator, Some Killer]
   \<and> demo_killer_left ''L'' = Some demo_survivors
   \<and> status demo_survivors = Playing
   \<and> filter is_killer (players demo_survivors) = []
   \<and> find (has_id ''A'') (players demo_survivors) = Some (demo_host\<lparr>role := Some Witness\<rparr>)
   \<and> clues demo_survivors = []
   \<and> clues (the (task_completed ''A'' ''L'' ''0'' (\<lambda>_. 0) (\<lambda>_. ''c1'') demo_killer_left ''L''))
       = [\<lparr> cid = ''c1'', clue_text = ''Southpaw'', isTampered = False, foundBy = ''A'' \<rparr>]
   \<and> \<not> describes ((new_player ''C'' ''Cy'' (\<lambda>_. 1) 2)\<lparr>role := Some Killer\<rparr>) ''Southpaw''"
proof -
  have "clues (the (task_completed ''A'' ''L'' ''0'' (\<lambda>_. 0) (\<lambda>_. ''c1'') demo_killer_left ''L''))
       = [\<lparr> cid = ''c1'', clue_text = ''Southpaw'', isTampered = False, foundBy = ''A'' \<rparr>]"
    by (simp add: task_completed_def demo_survivors_facts demo_first_task generateClue_def
          clue_target_def Let_def)
       (simp add: demo_survivors_def find_None_iff is_killer_def new_player_sel demo_host_def
          nth_opt_def demo_first_clue demo_started_facts)
  moreover have "\<not> describes ((new_player ''C'' ''Cy'' (\<lambda>_. 1) 2)\<lparr>role := Some Killer\<rparr>) ''Southpaw''"
    by (simp add: describes_def new_player_sel demo_killer_texts)
  ultimately show ?thesis
    by (simp add: demo_reachable demo_started_lookup demo_started_facts demo_survivors_facts)
qed

text \<open>
  Claim C7. A second \<open>task_completed\<close> for the same lobby and task, by any caller,
  changes nothing, whatever the first one did. When the lobby is playing, the task
  exists and is not yet completed, and the first caller is a player of the lobby, the
  first call appends exactly one clue and sets the flag; so the two calls together append
  exactly one clue and the flag is set after each of them.
\<close>

theorem task_completed_twice:
  "task_completed sid2 lobbyId taskId rnd2 uuid2 (task_completed sid lobbyId taskId rnd uuid st)
     = task_completed sid lobbyId taskId rnd uuid st
   \<and> (st lobbyId = Some l \<and> status l = Playing
      \<and> find (\<lambda>t. tid t = taskId) (tasks l) = Some task \<and> \<not> completed task
      \<and> find (has_id sid) (players l) = Some p
      \<longrightarrow> (\<exists>l1 c. task_completed sid lobbyId taskId rnd uuid st lobbyId = Some l1
             \<and> clues l1 = clues l @ [c]
             \<and> find (\<lambda>t. tid t = taskId) (tasks l1) = Some (task\<lparr>completed := True\<rparr>)))"
proof (intro conjI impI)
  show "task_completed sid2 lobbyId taskId rnd2 uuid2 (task_completed sid lobbyId taskId rnd uuid st)
     = task_completed sid lobbyId taskId rnd uuid st"
    by (rule task_completed_idem)
next
  assume a: "st lobbyId = Some l \<and> status l = Playing
      \<and> find (\<lambda>t. tid t = taskId) (tasks l) = Some task \<and> \<not> completed task
      \<and> find (has_id sid) (players l) = Some p"
  then have h: "st lobbyId = Some l" "status l = Playing"
    "find (\<lambda>t. tid t = taskId) (tasks l) = Some task" "\<not> completed task"
    "find (has_id sid) (players l) = Some p"
    by simp_all
  from task_completed_by_player [where st = st and lobbyId = lobbyId, OF h, of rnd uuid]
    find_flipped [OF h(3)]
  show "\<exists>l1 c. task_completed sid lobbyId taskId rnd uuid st lobbyId = Some l1
             \<and> clues l1 = clues l @ [c]
             \<and> find (\<lambda>t. tid t = taskId) (tasks l1) = Some (task\<lparr>completed := True\<rparr>)"
    by auto
qed


theorem task_completed_twice_witness:
  "task_completed ''C'' ''L'' ''t1'' (\<lambda>_. 1) (\<lambda>_. ''v'')
       (task_completed ''B'' ''L'' ''t1'' (\<lambda>_. 0) (\<lambda>_. ''u'') demo_playing)
     = task_completed ''B'' ''L'' ''t1'' (\<lambda>_. 0) (\<lambda>_. ''u'') demo_playing
   \<and> (\<exists>l1 c. task_completed ''B'' ''L'' ''t1'' (\<lambda>_. 0) (\<lambda>_. ''u'') demo_playing ''L'' = Some l1
         \<and> clues l1 = clues demo_playing_lobby @ [c]
         \<and> find (\<lambda>t. tid t = ''t1'') (tasks l1) = Some ((demo_task ''t1'' False)\<lparr>completed := True\<rparr>))"
  using task_completed_twice [of "''C''" "''L''" "''t1''" "\<lambda>_. 1" "\<lambda>_. ''v''" "''B''"
      "\<lambda>_. 0" "\<lambda>_. ''u''" demo_playing demo_playing_lobby "demo_task ''t1'' False"
      "demo_player ''B'' (Some Witness) False None"]
    demo_playing_lookup demo_playing_status demo_playing_task demo_playing_players(2)
  by blast

text \<open>
  Without the condition on the task this fails: once \<open>A\<close> has completed the task \<open>0\<close>
  of the running game, two further calls for that task leave the registry as it is, so
  together they append no clue at all.
\<close>

theorem task_completed_twice_counterexample:
  "reachable demo_task_done
   \<and> map_option status (demo_task_done ''L'') = Some Playing
   \<and> map_option (\<lambda>l. find (\<lambda>t. tid t = ''0'') (tasks l)) (demo_task_done ''L'')
       = Some (Some ((hd (generateTasks (\<lambda>_. 0) dec))\<lparr>completed := True\<rparr>))
   \<and> task_completed ''B'' ''L'' ''0'' (\<lambda>_. 1) (\<lambda>_. ''c3'')
        (task_completed ''B'' ''L'' ''0'' (\<lambda>_. 0) (\<lambda>_. ''c2'') demo_task_done)
       = demo_task_done"
proof -
  have a: "find (has_id ''A'') (players demo_started_lobby) = Some (demo_host\<lparr>role := Some Witness\<rparr>)"
    by (simp add: demo_started_lobby_def has_id_def demo_host_def)
  from task_completed_by_player [where st = demo_started and lobbyId = "''L''",
      OF demo_started_lookup demo_started_facts(1,5,6) a, of "\<lambda>_. 0" "\<lambda>_. ''c1''"]
  obtain l1 where l1: "demo_task_done ''L'' = Some l1" "status l1 = Playing"
    "tasks l1 = update_first (\<lambda>t. tid t = ''0'') (\<lambda>t. t\<lparr>completed := True\<rparr>) (tasks demo_started_lobby)"
    by (auto simp: demo_task_done_def demo_started_facts)
  have r: "reachable demo_task_done"
    unfolding demo_task_done_def by (intro reachable_step demo_reachable)
  have i: "task_completed ''B'' ''L'' ''0'' (\<lambda>_. 1) (\<lambda>_. ''c3'')
        (task_completed ''B'' ''L'' ''0'' (\<lambda>_. 0) (\<lambda>_. ''c2'') demo_task_done) = demo_task_done"
    by (simp add: demo_task_done_def task_completed_idem)
  from r i l1 find_flipped [OF demo_started_facts(5)] show ?thesis
    by simp
qed

section \<open>Joining and leaving (server.ts, lines 211-290 and 471-487)\<close>

text \<open>
  Claim C8. No handler checks whether a connection is already in a lobby, so the player
  ids of a lobby are pairwise different only as long as no connection joins a lobby it is
  already in. Under that condition every reachable state has unique ids in every lobby:
  \<open>create_lobby\<close> makes a lobby of one player, a join appends an id that is new there,
  \<open>leave_lobby\<close> and \<open>disconnect\<close> only remove an entry, and the other handlers keep
  the ids as they are.
\<close>

theorem player_ids_unique:
  "fresh_reachable st \<Longrightarrow> st lobbyId = Some l \<Longrightarrow> distinct (map pid (players l))"
proof -
  assume "fresh_reachable st"
  then have "unique_ids st"
  proof (induction rule: fresh_reachable.induct)
    case fresh_init
    show ?case by (simp add: unique_ids_def)
  next
    case (fresh_step st ev)
    then show ?case by (simp add: unique_step)
  qed
  then show "st lobbyId = Some l \<Longrightarrow> distinct (map pid (players l))"
    by (simp add: unique_ids_def)
qed


theorem player_ids_unique_witness:
  "distinct (map pid (players (the (demo_joined ''L''))))
   \<and> map pid (players (the (demo_joined ''L''))) = [''A'', ''B'']"
proof -
  have "fresh_reachable demo_created"
    unfolding demo_created_def
    by (intro fresh_step fresh_init) (simp add: fresh_join_def)
  moreover have "fresh_join (Join_lobby ''B'' ''L'' ''Al'' (\<lambda>_. 0)) demo_created"
    by (simp add: fresh_join_def demo_created_def create_lobby_def)
  ultimately have r: "fresh_reachable demo_joined"
    unfolding demo_joined_def by (rule fresh_step)
  have l: "demo_joined ''L'' = Some (the (demo_joined ''L''))"
    by (simp add: demo_joined_def demo_created_def create_lobby_def join_lobby_def Let_def)
  have "map pid (players (the (demo_joined ''L''))) = [''A'', ''B'']"
    by (simp add: demo_joined_def demo_created_def create_lobby_def join_lobby_def Let_def
          new_player_def)
  with player_ids_unique [OF r l] show ?thesis by simp
qed

text \<open>
  The condition cannot be dropped: the connection that created a lobby can join it, and
  is then in its player list twice.
\<close>

theorem player_ids_unique_counterexample:
  "reachable demo_double_join
   \<and> map pid (players (the (demo_double_join ''L''))) = [''A'', ''A'']"
proof
  show "reachable demo_double_join"
    unfolding demo_double_join_def demo_created_def
    by (intro reachable_step reachable_init)
  show "map pid (players (the (demo_double_join ''L''))) = [''A'', ''A'']"
    by (simp add: demo_double_join_def demo_created_def create_lobby_def join_lobby_def Let_def
          new_player_def)
qed

text \<open>
  Claim C9. While the status is lobby, when the caller is the host and no other player
  is, and some player remains after the caller's entry is removed, \<open>leave_lobby\<close> (and
  \<open>disconnect\<close>, which does the same) makes the first remaining player the host, and
  that player is then the only host.
  While the status is playing, \<open>leave_lobby\<close> removes the caller's entry from the player
  list, and with it the role and the vote recorded there; the entries of the other
  players, among them the host flags, and the clues stay as they are. \<open>disconnect\<close>
  changes nothing while the status is playing.
\<close>

theorem host_departure:
  "(st lobbyId = Some l \<and> status l = Lobby
      \<and> findIndex (has_id sid) (players l) = Some i \<and> isHost (players l ! i)
      \<and> list_all (\<lambda>p. \<not> isHost p) (remaining sid l)
      \<and> remaining sid l \<noteq> []
    \<longrightarrow> leave_lobby sid lobbyId st lobbyId
          = Some (l\<lparr>players := (hd (remaining sid l))\<lparr>isHost := True\<rparr> # tl (remaining sid l)\<rparr>)
        \<and> disconnect sid st lobbyId = leave_lobby sid lobbyId st lobbyId
        \<and> filter isHost ((hd (remaining sid l))\<lparr>isHost := True\<rparr> # tl (remaining sid l))
            = [(hd (remaining sid l))\<lparr>isHost := True\<rparr>])
   \<and> (st lobbyId = Some l \<and> status l = Playing
      \<and> findIndex (has_id sid) (players l) = Some i \<and> remaining sid l \<noteq> []
    \<longrightarrow> leave_lobby sid lobbyId st lobbyId = Some (l\<lparr>players := splice1 i (players l)\<rparr>))
   \<and> (st lobbyId = Some l \<and> status l = Playing \<longrightarrow> disconnect sid st lobbyId = Some l)"
proof (intro conjI impI)
  assume a: "st lobbyId = Some l \<and> status l = Lobby
      \<and> findIndex (has_id sid) (players l) = Some i \<and> isHost (players l ! i)
      \<and> list_all (\<lambda>p. \<not> isHost p) (remaining sid l)
      \<and> remaining sid l \<noteq> []"
  then have fi: "findIndex (has_id sid) (players l) = Some i" by simp
  then have r1: "remaining sid l = splice1 i (players l)"
    by (simp add: remaining_def)
  with a have r: "remaining sid l = splice1 i (players l)" "splice1 i (players l) \<noteq> []"
    by simp_all
  then obtain q qs where q: "splice1 i (players l) = q # qs"
    by (cases "splice1 i (players l)") auto
  show "leave_lobby sid lobbyId st lobbyId
          = Some (l\<lparr>players := (hd (remaining sid l))\<lparr>isHost := True\<rparr> # tl (remaining sid l)\<rparr>)"
    using a r q by (simp add: leave_lobby_def)
  show "disconnect sid st lobbyId = leave_lobby sid lobbyId st lobbyId"
    using a r q by (simp add: leave_lobby_def disconnect_def disconnect_lobby_def)
  have "\<forall>p \<in> set (splice1 i (players l)). \<not> isHost p"
    using a r by (simp add: list_all_iff)
  from filter_isHost_promote [OF r(2) this]
  show "filter isHost ((hd (remaining sid l))\<lparr>isHost := True\<rparr> # tl (remaining sid l))
            = [(hd (remaining sid l))\<lparr>isHost := True\<rparr>]"
    using r q by simp
next
  assume a: "st lobbyId = Some l \<and> status l = Playing
      \<and> findIndex (has_id sid) (players l) = Some i \<and> remaining sid l \<noteq> []"
  then have fi: "findIndex (has_id sid) (players l) = Some i" by simp
  then have "remaining sid l = splice1 i (players l)"
    by (simp add: remaining_def)
  with a fi show "leave_lobby sid lobbyId st lobbyId = Some (l\<lparr>players := splice1 i (players l)\<rparr>)"
    by (simp add: leave_lobby_def)
next
  assume "st lobbyId = Some l \<and> status l = Playing"
  then show "disconnect sid st lobbyId = Some l"
    by (simp add: disconnect_def disconnect_lobby_def split: option.splits)
qed


theorem host_departure_witness:
  "leave_lobby ''A'' ''L'' demo_waiting ''L''
     = Some (demo_waiting_lobby\<lparr>players := [demo_player ''B'' None True None,
                                              demo_player ''C'' None False None]\<rparr>)
   \<and> disconnect ''A'' demo_waiting ''L'' = leave_lobby ''A'' ''L'' demo_waiting ''L''
   \<and> filter isHost [demo_player ''B'' None True None, demo_player ''C'' None False None]
       = [demo_player ''B'' None True None]
   \<and> leave_lobby ''B'' ''L'' demo_playing ''L''
       = Some (demo_playing_lobby\<lparr>players := [demo_player ''A'' (Some Killer) True None,
                                               demo_player ''C'' (Some Investigator) False None]\<rparr>)
   \<and> disconnect ''B'' demo_playing ''L'' = Some demo_playing_lobby"
proof -
  have w: "demo_waiting ''L'' = Some demo_waiting_lobby \<and> status demo_waiting_lobby = Lobby
      \<and> findIndex (has_id ''A'') (players demo_waiting_lobby) = Some 0
      \<and> isHost (players demo_waiting_lobby ! 0)
      \<and> list_all (\<lambda>p. \<not> isHost p) (remaining ''A'' demo_waiting_lobby)
      \<and> remaining ''A'' demo_waiting_lobby \<noteq> []"
    by (simp add: demo_waiting_def demo_waiting_lobby_def demo_store_def demo_lobby_def
          demo_player_def has_id_def remaining_def splice1_def)
  have hd_rem: "(hd (remaining ''A'' demo_waiting_lobby))\<lparr>isHost := True\<rparr>
      = demo_player ''B'' None True None"
    and tl_rem: "tl (remaining ''A'' demo_waiting_lobby) = [demo_player ''C'' None False None]"
    by (simp_all add: demo_waiting_lobby_def demo_lobby_def demo_player_def has_id_def
          remaining_def splice1_def)
  have p: "demo_playing ''L'' = Some demo_playing_lobby \<and> status demo_playing_lobby = Playing
      \<and> findIndex (has_id ''B'') (players demo_playing_lobby) = Some 1
      \<and> remaining ''B'' demo_playing_lobby \<noteq> []"
    by (simp add: demo_defs has_id_def remaining_def splice1_def)
  have spl: "splice1 1 (players demo_playing_lobby)
      = [demo_player ''A'' (Some Killer) True None, demo_player ''C'' (Some Investigator) False None]"
    by (simp add: demo_playing_lobby_def demo_lobby_def splice1_def)
  have "leave_lobby ''A'' ''L'' demo_waiting ''L''
          = Some (demo_waiting_lobby\<lparr>players := (hd (remaining ''A'' demo_waiting_lobby))\<lparr>isHost := True\<rparr>
                    # tl (remaining ''A'' demo_waiting_lobby)\<rparr>)
        \<and> disconnect ''A'' demo_waiting ''L'' = leave_lobby ''A'' ''L'' demo_waiting ''L''
        \<and> filter isHost ((hd (remaining ''A'' demo_waiting_lobby))\<lparr>isHost := True\<rparr>
                    # tl (remaining ''A'' demo_waiting_lobby))
            = [(hd (remaining ''A'' demo_waiting_lobby))\<lparr>isHost := True\<rparr>]"
    using w host_departure [of demo_waiting "''L''" demo_waiting_lobby "''A''" 0]
    by blast
  then have first: "leave_lobby ''A'' ''L'' demo_waiting ''L''
     = Some (demo_waiting_lobby\<lparr>players := [demo_player ''B'' None True None,
                                              demo_player ''C'' None False None]\<rparr>)
   \<and> disconnect ''A'' demo_waiting ''L'' = leave_lobby ''A'' ''L'' demo_waiting ''L''
   \<and> filter isHost [demo_player ''B'' None True None, demo_player ''C'' None False None]
       = [demo_player ''B'' None True None]"
    unfolding hd_rem tl_rem .
  have "leave_lobby ''B'' ''L'' demo_playing ''L''
       = Some (demo_playing_lobby\<lparr>players := splice1 1 (players demo_playing_lobby)\<rparr>)
   \<and> disconnect ''B'' demo_playing ''L'' = Some demo_playing_lobby"
    using p host_departure [of demo_playing "''L''" demo_playing_lobby "''B''" 1]
    by blast
  then have second: "leave_lobby ''B'' ''L'' demo_playing ''L''
       = Some (demo_playing_lobby\<lparr>players := [demo_player ''A'' (Some Killer) True None,
                                               demo_player ''C'' (Some Investigator) False None]\<rparr>)
   \<and> disconnect ''B'' demo_playing ''L'' = Some demo_playing_lobby"
    unfolding spl .
  from first second show ?thesis by blast
qed

text \<open>
  So a player who leaves a running game is not kept: after \<open>B\<close> has left the started
  game, the lobby has no entry for \<open>B\<close>, whose role was recorded there before.
\<close>

theorem host_departure_counterexample:
  "reachable (leave_lobby ''B'' ''L'' demo_started)
   \<and> demo_started ''L'' = Some demo_started_lobby
   \<and> status demo_started_lobby = Playing
   \<and> find (has_id ''B'') (players demo_started_lobby)
       = Some ((new_player ''B'' ''Bo'' (\<lambda>_. 0) 1)\<lparr>role := Some Investigator\<rparr>)
   \<and> map pid (players (the (leave_lobby ''B'' ''L'' demo_started ''L''))) = [''A'', ''C'']
   \<and> find (has_id ''B'') (players (the (leave_lobby ''B'' ''L'' demo_started ''L''))) = None"
proof -
  have "reachable (step (Leave_lobby ''B'' ''L'') demo_started)"
    by (intro reachable_step demo_reachable)
  then have r: "reachable (leave_lobby ''B'' ''L'' demo_started)" by simp
  have l: "leave_lobby ''B'' ''L'' demo_started ''L''
      = Some (demo_started_lobby\<lparr>players := [demo_host\<lparr>role := Some Witness\<rparr>,
                  (new_player ''C'' ''Cy'' (\<lambda>_. 1) 2)\<lparr>role := Some Killer\<rparr>]\<rparr>)"
    by (simp add: leave_lobby_def demo_started_lookup)
       (simp add: demo_started_lobby_def has_id_def new_player_sel demo_host_def splice1_def)
  show ?thesis
    by (simp add: r l demo_started_lookup demo_started_facts)
       (simp add: demo_started_lobby_def has_id_def new_player_sel demo_host_def)
qed

section \<open>Starting the game (server.ts, lines 151-166 and 292-312)\<close>

text \<open>
  Claim C2. When the caller is the host and the lobby has at least three players,
  \<open>start_game\<close> keeps the players in their order and gives them roles that are, as a
  multiset, exactly the roles expected for their number, whatever the shuffle draws.
  Hence exactly one player is the killer, at most one is the witness and every player has
  a role in the state in which the status is playing. In every other case \<open>start_game\<close>
  changes nothing, so the status never becomes playing without the roles.
\<close>

theorem start_game_roles:
  "(st lobbyId = Some l \<and> find (has_id sid) (players l) = Some p \<and> isHost p
      \<and> 3 \<le> length (players l)
    \<longrightarrow> (\<exists>l'. start_game sid lobbyId rnd uuid now st lobbyId = Some l'
          \<and> status l' = Playing
          \<and> map pid (players l') = map pid (players l)
          \<and> mset (map role (players l')) = image_mset Some (expected_roles (length (players l)))
          \<and> length (filter (\<lambda>p. role p = Some Killer) (players l')) = 1
          \<and> length (filter (\<lambda>p. role p = Some Witness) (players l')) \<le> 1
          \<and> list_all (\<lambda>p. role p \<noteq> None) (players l')))
   \<and> (st lobbyId = None
      \<or> (\<exists>l. st lobbyId = Some l
            \<and> (find (has_id sid) (players l) = None
               \<or> (\<exists>p. find (has_id sid) (players l) = Some p \<and> \<not> isHost p)
               \<or> length (players l) < 3))
    \<longrightarrow> start_game sid lobbyId rnd uuid now st = st)"
proof (intro conjI impI)
  assume a: "st lobbyId = Some l \<and> find (has_id sid) (players l) = Some p \<and> isHost p
      \<and> 3 \<le> length (players l)"
  then have n: "3 \<le> length (players l)" by simp
  let ?ps = "assignRoles rnd (players l)"
  let ?l' = "l\<lparr>players := ?ps,
               tasks := generateTasks (shift (length (role_pool (length (players l))) - 1) rnd) uuid,
               status := Playing, startTime := Some (now 0),
               endTime := Some (now 1 + 5 * 60 * 1000)\<rparr>"
  have res: "start_game sid lobbyId rnd uuid now st lobbyId = Some ?l'"
    using a by (simp add: start_game_def Let_def)
  have m: "mset (map role ?ps) = image_mset Some (expected_roles (length (players l)))"
    by (rule mset_roles_assignRoles [OF n])
  have k: "length (filter (\<lambda>p. role p = Some Killer) ?ps) = 1"
    by (simp only: count_roles m count_expected_killer)
  have w: "length (filter (\<lambda>p. role p = Some Witness) ?ps) \<le> 1"
    by (simp only: count_roles m count_expected_witness)
  have "None \<notin> set (map role ?ps)"
    using none_not_expected [of "length (players l)"] m by (metis set_mset_mset)
  then have all: "list_all (\<lambda>p. role p \<noteq> None) ?ps"
    unfolding list_all_iff by (metis image_eqI set_map)
  show "\<exists>l'. start_game sid lobbyId rnd uuid now st lobbyId = Some l'
          \<and> status l' = Playing
          \<and> map pid (players l') = map pid (players l)
          \<and> mset (map role (players l')) = image_mset Some (expected_roles (length (players l)))
          \<and> length (filter (\<lambda>p. role p = Some Killer) (players l')) = 1
          \<and> length (filter (\<lambda>p. role p = Some Witness) (players l')) \<le> 1
          \<and> list_all (\<lambda>p. role p \<noteq> None) (players l')"
    using res m k w all by (intro exI [of _ ?l']) (simp add: pid_assignRoles)
next
  assume "st lobbyId = None
      \<or> (\<exists>l. st lobbyId = Some l
            \<and> (find (has_id sid) (players l) = None
               \<or> (\<exists>p. find (has_id sid) (players l) = Some p \<and> \<not> isHost p)
               \<or> length (players l) < 3))"
  then show "start_game sid lobbyId rnd uuid now st = st"
    by (auto simp: start_game_def split: option.splits)
qed

theorem start_game_roles_witness:
  "(\<exists>l'. start_game ''A'' ''L'' (\<lambda>_. 0) (\<lambda>_. ''u'') (\<lambda>_. 0) demo_waiting ''L'' = Some l'
       \<and> status l' = Playing
       \<and> mset (map role (players l')) = {#Some Killer, Some Witness, Some Investigator#}
       \<and> length (filter (\<lambda>p. role p = Some Killer) (players l')) = 1
       \<and> length (filter (\<lambda>p. role p = Some Witness) (players l')) \<le> 1
       \<and> list_all (\<lambda>p. role p \<noteq> None) (players l'))
   \<and> start_game ''B'' ''L'' (\<lambda>_. 0) (\<lambda>_. ''u'') (\<lambda>_. 0) demo_waiting = demo_waiting"
proof -
  have h: "demo_waiting ''L'' = Some demo_waiting_lobby
      \<and> find (has_id ''A'') (players demo_waiting_lobby) = Some (demo_player ''A'' None True None)
      \<and> isHost (demo_player ''A'' None True None)
      \<and> 3 \<le> length (players demo_waiting_lobby)"
    by (simp add: demo_waiting_def demo_waiting_lobby_def demo_store_def demo_lobby_def
          demo_player_def has_id_def)
  have e: "image_mset Some (expected_roles (length (players demo_waiting_lobby)))
      = {#Some Killer, Some Witness, Some Investigator#}"
    by (simp add: demo_waiting_lobby_def demo_lobby_def expected_roles_def)
  have g: "\<exists>l. demo_waiting ''L'' = Some l
            \<and> (find (has_id ''B'') (players l) = None
               \<or> (\<exists>p. find (has_id ''B'') (players l) = Some p \<and> \<not> isHost p)
               \<or> length (players l) < 3)"
    by (simp add: demo_waiting_def demo_waiting_lobby_def demo_store_def demo_lobby_def
          demo_player_def has_id_def)
  show ?thesis
    using h g
      start_game_roles [of demo_waiting "''L''" demo_waiting_lobby "''A''"
        "demo_player ''A'' None True None" "\<lambda>_. 0" "\<lambda>_. ''u''" "\<lambda>_. 0"]
      start_game_roles [of demo_waiting "''L''" demo_waiting_lobby "''B''"
        "demo_player ''A'' None True None" "\<lambda>_. 0" "\<lambda>_. ''u''" "\<lambda>_. 0"]
    unfolding e by blast
qed

section \<open>Voting (server.ts, lines 399-441)\<close>

text \<open>
  Claim C1. In a lobby in status voting, when the caller is a player and, once the
  caller's vote is recorded, every player has a countable vote, the handler resolves the
  vote at once: the status becomes \<open>witness_guessing\<close> if there is no tie for the top
  count and the plurality target is the killer's id; otherwise (a tie, or a plurality
  target that is not the killer) the status becomes \<open>game_over\<close> and the winner is the
  killer. Nothing else of the lobby changes besides the recorded vote.
  The instance after the theorem is the pair of examples of the specification, with four
  players of whom \<open>A\<close> is the killer and \<open>D\<close> votes last: votes \<open>A:2, B:1, C:1\<close> give
  \<open>witness_guessing\<close>, votes \<open>A:2, B:2\<close> give \<open>game_over\<close> for the killer.
\<close>

theorem vote_resolution:
  assumes "st lobbyId = Some l" and "status l = Voting"
    and "find (has_id sid) (players l) = Some p"
    and "ps = update_first (has_id sid) (\<lambda>p. p\<lparr>votedFor := Some target\<rparr>) (players l)"
    and "list_all (\<lambda>p. countable_vote (votedFor p)) ps"
  shows "vote sid lobbyId target st lobbyId =
     Some (if accusation_succeeds ps
           then l\<lparr>players := ps, status := Witness_guessing\<rparr>
           else l\<lparr>players := ps, winner := Some Killer_wins, status := Game_over\<rparr>)"
  by (rule vote_decides [where st = st and lobbyId = lobbyId, OF assms])

theorem vote_resolution_witness:
  "vote ''D'' ''L'' ''C'' (demo_store (demo_voting (Some ''B'') (Some ''A'') (Some ''A'') None)) ''L''
     = Some ((demo_voting (Some ''B'') (Some ''A'') (Some ''A'') None)
              \<lparr>players := demo_ballots (Some ''B'') (Some ''A'') (Some ''A'') (Some ''C''),
               status := Witness_guessing\<rparr>)
   \<and> vote ''D'' ''L'' ''B'' (demo_store (demo_voting (Some ''B'') (Some ''A'') (Some ''A'') None)) ''L''
     = Some ((demo_voting (Some ''B'') (Some ''A'') (Some ''A'') None)
              \<lparr>players := demo_ballots (Some ''B'') (Some ''A'') (Some ''A'') (Some ''B''),
               winner := Some Killer_wins, status := Game_over\<rparr>)"
proof
  have "accusation_succeeds (demo_ballots (Some ''B'') (Some ''A'') (Some ''A'') (Some ''C''))"
    by (simp add: accusation_succeeds_def demo_ballots_votes demo_tops) (simp add: demo_player_def)
  with vote_resolution [where st = "demo_store (demo_voting (Some ''B'') (Some ''A'') (Some ''A'') None)"
      and lobbyId = "''L''" and sid = "''D''" and target = "''C''",
      OF demo_voting_facts(1,2,3) demo_voting_facts(4) [symmetric] demo_countable(1)]
  show "vote ''D'' ''L'' ''C'' (demo_store (demo_voting (Some ''B'') (Some ''A'') (Some ''A'') None)) ''L''
     = Some ((demo_voting (Some ''B'') (Some ''A'') (Some ''A'') None)
              \<lparr>players := demo_ballots (Some ''B'') (Some ''A'') (Some ''A'') (Some ''C''),
               status := Witness_guessing\<rparr>)"
    by simp
next
  have "\<not> accusation_succeeds (demo_ballots (Some ''B'') (Some ''A'') (Some ''A'') (Some ''B''))"
    by (simp add: accusation_succeeds_def demo_ballots_votes demo_tops)
  with vote_resolution [where st = "demo_store (demo_voting (Some ''B'') (Some ''A'') (Some ''A'') None)"
      and lobbyId = "''L''" and sid = "''D''" and target = "''B''",
      OF demo_voting_facts(1,2,3) demo_voting_facts(4) [symmetric] demo_countable(2)]
  show "vote ''D'' ''L'' ''B'' (demo_store (demo_voting (Some ''B'') (Some ''A'') (Some ''A'') None)) ''L''
     = Some ((demo_voting (Some ''B'') (Some ''A'') (Some ''A'') None)
              \<lparr>players := demo_ballots (Some ''B'') (Some ''A'') (Some ''A'') (Some ''B''),
               winner := Some Killer_wins, status := Game_over\<rparr>)"
    by simp
qed

text \<open>
  A vote that is not null need not be countable, and then the rule does not hold. In the
  game started above, \<open>C\<close> is the killer and votes last. An empty string is not null but
  is falsy: with it as the last vote every player has a vote that is not null, yet the
  handler does not resolve and the status stays \<open>voting\<close>. A vote for \<open>constructor\<close>
  puts no number into the tally: with two votes for it and one for the killer, the
  plurality target is not the killer, yet the status becomes \<open>witness_guessing\<close>.
\<close>

theorem vote_resolution_counterexample:
  "reachable (demo_voted ''C'' ''C'')
   \<and> demo_voted ''C'' ''C'' ''L'' = Some (demo_poll (Some ''C'') (Some ''C'') None)
   \<and> status (demo_poll (Some ''C'') (Some ''C'') None) = Voting
   \<and> vote ''C'' ''L'' [] (demo_voted ''C'' ''C'') ''L''
       = Some (demo_poll (Some ''C'') (Some ''C'') (Some []))
   \<and> map votedFor (players (demo_poll (Some ''C'') (Some ''C'') (Some [])))
       = [Some ''C'', Some ''C'', Some []]
   \<and> status (demo_poll (Some ''C'') (Some ''C'') (Some [])) = Voting
   \<and> reachable (demo_voted ''C'' ''constructor'')
   \<and> vote ''C'' ''L'' ''constructor'' (demo_voted ''C'' ''constructor'') ''L''
       = Some ((demo_poll (Some ''C'') (Some ''constructor'') (Some ''constructor''))
                \<lparr>status := Witness_guessing\<rparr>)
   \<and> top_targets (players (demo_poll (Some ''C'') (Some ''constructor'') (Some ''constructor'')))
       = [''constructor'']
   \<and> map_option pid (find is_killer
         (players (demo_poll (Some ''C'') (Some ''constructor'') (Some ''constructor''))))
       = Some ''C''"
  by (simp add: demo_voted_reachable demo_voted_lookup demo_poll_facts demo_last_vote
        demo_poll_tops demo_poll_killer)

text \<open>
  Claim C10. The handler records the target the caller supplies without looking it up
  among the players. When every recorded vote is countable, the tally holds for every id,
  player or not, the number of votes for it, and if the single plurality target is the id
  of no player the lobby goes to \<open>game_over\<close> with the killer as winner.
\<close>

theorem vote_target_unchecked:
  assumes "st lobbyId = Some l" and "status l = Voting"
    and "find (has_id sid) (players l) = Some p"
    and "ps = update_first (has_id sid) (\<lambda>p. p\<lparr>votedFor := Some target\<rparr>) (players l)"
  shows "(\<exists>l'. vote sid lobbyId target st lobbyId = Some l' \<and> players l' = ps)
     \<and> find (has_id sid) ps = Some (p\<lparr>votedFor := Some target\<rparr>)
     \<and> (list_all (\<lambda>p. countable_vote (votedFor p)) ps \<longrightarrow>
          (\<forall>t. tally_count (tally ps) t = votes_for ps t)
          \<and> (\<forall>t. top_targets ps = [t] \<and> t \<notin> pid ` set ps \<longrightarrow>
                vote sid lobbyId target st lobbyId
                  = Some (l\<lparr>players := ps, winner := Some Killer_wins, status := Game_over\<rparr>)))"
proof (intro conjI impI allI)
  show "\<exists>l'. vote sid lobbyId target st lobbyId = Some l' \<and> players l' = ps"
    using assms(4)
    by (simp add: vote_recorded [where st = st and lobbyId = lobbyId, OF assms(1-3)] Let_def
          players_resolve_votes)
next
  have "has_id sid p" using assms(3) by (auto simp: find_Some_iff)
  then show "find (has_id sid) ps = Some (p\<lparr>votedFor := Some target\<rparr>)"
    unfolding assms(4) using assms(3) by (intro find_update_first) (simp_all add: has_id_def)
next
  fix t
  assume "list_all (\<lambda>p. countable_vote (votedFor p)) ps"
  then show "tally_count (tally ps) t = votes_for ps t"
    by (rule tally_counts(2))
next
  fix t
  assume cv: "list_all (\<lambda>p. countable_vote (votedFor p)) ps"
    and t: "top_targets ps = [t] \<and> t \<notin> pid ` set ps"
  have "\<not> accusation_succeeds ps"
  proof (cases "find is_killer ps")
    case None
    then show ?thesis by (simp add: accusation_succeeds_def)
  next
    case (Some k)
    then have "k \<in> set ps" by (auto simp: find_Some_iff)
    with t have "t \<noteq> pid k" by auto
    with t Some show ?thesis by (simp add: accusation_succeeds_def)
  qed
  with vote_decides [where st = st and lobbyId = lobbyId, OF assms cv]
  show "vote sid lobbyId target st lobbyId
      = Some (l\<lparr>players := ps, winner := Some Killer_wins, status := Game_over\<rparr>)"
    by simp
qed

theorem vote_target_unchecked_witness:
  "(\<exists>l'. vote ''D'' ''L'' ''X'' (demo_store (demo_voting (Some ''X'') (Some ''X'') (Some ''A'') None)) ''L''
            = Some l'
          \<and> players l' = demo_ballots (Some ''X'') (Some ''X'') (Some ''A'') (Some ''X''))
   \<and> find (has_id ''D'') (demo_ballots (Some ''X'') (Some ''X'') (Some ''A'') (Some ''X''))
       = Some ((demo_player ''D'' (Some Forensics) False None)\<lparr>votedFor := Some ''X''\<rparr>)
   \<and> tally_count (tally (demo_ballots (Some ''X'') (Some ''X'') (Some ''A'') (Some ''X''))) ''X'' = 3
   \<and> vote ''D'' ''L'' ''X'' (demo_store (demo_voting (Some ''X'') (Some ''X'') (Some ''A'') None)) ''L''
       = Some ((demo_voting (Some ''X'') (Some ''X'') (Some ''A'') None)
                \<lparr>players := demo_ballots (Some ''X'') (Some ''X'') (Some ''A'') (Some ''X''),
                 winner := Some Killer_wins, status := Game_over\<rparr>)"
proof -
  have unknown: "''X'' \<notin> pid ` set (demo_ballots (Some ''X'') (Some ''X'') (Some ''A'') (Some ''X''))"
    by (simp add: demo_ballots_def demo_player_def)
  have three: "votes_for (demo_ballots (Some ''X'') (Some ''X'') (Some ''A'') (Some ''X'')) ''X'' = 3"
    by (simp add: votes_for_map demo_ballots_votes)
  from vote_target_unchecked [where st = "demo_store (demo_voting (Some ''X'') (Some ''X'') (Some ''A'') None)"
      and lobbyId = "''L''" and sid = "''D''" and target = "''X''",
      OF demo_voting_facts(1,2,3) demo_voting_facts(4) [symmetric]]
    demo_countable(3) demo_tops(3) unknown three
  show ?thesis by simp
qed

text \<open>
  For a target that is not countable this fails. When every player votes for the empty
  string, which is the id of no player, the lobby stays in \<open>voting\<close>. When two of three
  vote for \<open>toString\<close>, which is the id of no player, and one for the killer, the
  status becomes \<open>witness_guessing\<close>.
\<close>

theorem vote_target_unchecked_counterexample:
  "reachable (demo_voted [] [])
   \<and> demo_voted [] [] ''L'' = Some (demo_poll (Some []) (Some []) None)
   \<and> status (demo_poll (Some []) (Some []) None) = Voting
   \<and> vote ''C'' ''L'' [] (demo_voted [] []) ''L'' = Some (demo_poll (Some []) (Some []) (Some []))
   \<and> status (demo_poll (Some []) (Some []) (Some [])) = Voting
   \<and> top_targets (players (demo_poll (Some []) (Some []) (Some []))) = [[]]
   \<and> map pid (players (demo_poll (Some []) (Some []) (Some []))) = [''A'', ''B'', ''C'']
   \<and> reachable (demo_voted ''C'' ''toString'')
   \<and> vote ''C'' ''L'' ''toString'' (demo_voted ''C'' ''toString'') ''L''
       = Some ((demo_poll (Some ''C'') (Some ''toString'') (Some ''toString''))
                \<lparr>status := Witness_guessing\<rparr>)
   \<and> top_targets (players (demo_poll (Some ''C'') (Some ''toString'') (Some ''toString'')))
       = [''toString'']
   \<and> map pid (players (demo_poll (Some ''C'') (Some ''toString'') (Some ''toString'')))
       = [''A'', ''B'', ''C'']"
  by (simp add: demo_voted_reachable demo_voted_lookup demo_poll_facts demo_last_vote
        demo_poll_tops)

end
